theory Spec2Isabelle
  imports Complex_Main
begin

section \<open>Go values used by handy.go\<close>

text \<open>
  A Go \<^verbatim>\<open>string\<close> is an immutable byte sequence: \<^typ>\<open>string\<close>.
  A Go \<^verbatim>\<open>[]byte\<close> can be \<^verbatim>\<open>nil\<close>: \<open>None\<close> is the nil slice,
  \<open>Some bs\<close> a non-nil slice with the elements \<open>bs\<close> (\<open>Some []\<close> is the
  non-nil empty slice). Go's \<^verbatim>\<open>int\<close> is \<^typ>\<open>int\<close>: handy.go does no
  arithmetic on it, it only returns the literal 0 or what the document engine hands it.
\<close>

type_synonym go_bytes = "char list option"

definition go_elems :: "go_bytes \<Rightarrow> char list" where
  "go_elems sb = (case sb of None \<Rightarrow> [] | Some bs \<Rightarrow> bs)"

text \<open>\<^verbatim>\<open>string(sb)\<close>: a fresh string with the bytes of \<open>sb\<close>; nil gives the empty string.\<close>

definition go_string :: "go_bytes \<Rightarrow> string" where
  "go_string sb = go_elems sb"

text \<open>
  \<^verbatim>\<open>append(b, sb...)\<close>: when nothing is appended the capacity of \<open>b\<close> suffices and
  \<open>b\<close> itself is the result, so appending no element to the nil slice gives the nil
  slice; otherwise the result is a (non-nil) slice with the elements of both.
\<close>

definition go_append :: "go_bytes \<Rightarrow> go_bytes \<Rightarrow> go_bytes" where
  "go_append b sb = (if go_elems sb = [] then b else Some (go_elems b @ go_elems sb))"

text \<open>A \<^verbatim>\<open>panic(err)\<close> that leaves the function, carrying its argument.\<close>

datatype 'e abort = Panic 'e

section \<open>The document engine (Parser and Value), taken as a parameter\<close>

text \<open>
  handy.go calls the methods of \<^verbatim>\<open>Parser\<close> and \<^verbatim>\<open>Value\<close>, which are declared
  outside handy.go. They are the fields of an \<open>engine\<close>: \<open>'p\<close> is the state of a
  Parser object, \<open>'v\<close> a parsed Value, \<open>'e\<close> the error type, \<open>'f\<close> the type
  float64. A parse method reads and updates the parser it is called on and returns
  \<^verbatim>\<open>(v, err)\<close>: \<open>Inl err\<close> when \<^verbatim>\<open>err != nil\<close>, \<open>Inr v\<close> otherwise.
  \<^verbatim>\<open>Value.GetBigint\<close> returns a \<^verbatim>\<open>*big.Int\<close>: an address in the heap of big.Int
  objects (or nil), so it takes that heap and returns it.
\<close>

record ('p, 'v, 'e, 'f) engine =
  zero_Parser :: 'p
  Parser_Parse :: "'p \<Rightarrow> string \<Rightarrow> ('e + 'v) \<times> 'p"
  Parser_ParseBytes :: "'p \<Rightarrow> go_bytes \<Rightarrow> ('e + 'v) \<times> 'p"
  Value_GetStringBytes :: "'v \<Rightarrow> string list \<Rightarrow> go_bytes"
  Value_GetInt :: "'v \<Rightarrow> string list \<Rightarrow> int"
  Value_GetHex :: "'v \<Rightarrow> string list \<Rightarrow> string"
  Value_GetBigint :: "'v \<Rightarrow> string list \<Rightarrow> int list \<Rightarrow> nat option \<times> int list"
  Value_GetFloat64 :: "'v \<Rightarrow> string list \<Rightarrow> 'f"
  Value_GetBool :: "'v \<Rightarrow> string list \<Rightarrow> bool"
  Value_Exists :: "'v \<Rightarrow> string list \<Rightarrow> bool"

section \<open>The program state\<close>

text \<open>
  Parser objects live in a heap (\<open>parsers\<close>; the address of an object is its index, and
  allocation appends). \<open>idle\<close> is the idle set of the package variable
  \<^verbatim>\<open>handyPool\<close>, as addresses. \<open>bigs\<close> is the heap of big.Int objects. \<open>events\<close>
  records, in order, every pool operation and every parse run on a parser; the
  program never reads it.
\<close>

datatype pool_event = PoolGet nat | ParserRun nat | PoolPut nat

record 'p world =
  parsers :: "'p list"
  idle :: "nat list"
  bigs :: "int list"
  events :: "pool_event list"

text \<open>
  Modelled from the spec: \<^verbatim>\<open>ParserPool.Get\<close> and \<^verbatim>\<open>ParserPool.Put\<close>, whose
  declaration is not in handy.go. Get "returns an idle parser if one exists, otherwise
  constructs a new one"; Put "returns the parser to the idle set for future reuse".
\<close>

definition ParserPool_Get ::
  "('p, 'v, 'e, 'f) engine \<Rightarrow> 'p world \<Rightarrow> nat \<times> 'p world" where
  "ParserPool_Get E w =
     (case idle w of
        [] \<Rightarrow> (length (parsers w),
               w\<lparr>parsers := parsers w @ [zero_Parser E],
                 events := events w @ [PoolGet (length (parsers w))]\<rparr>)
      | a # rest \<Rightarrow> (a, w\<lparr>idle := rest, events := events w @ [PoolGet a]\<rparr>))"

definition ParserPool_Put :: "nat \<Rightarrow> 'p world \<Rightarrow> 'p world" where
  "ParserPool_Put a w = w\<lparr>idle := a # idle w, events := events w @ [PoolPut a]\<rparr>"

text \<open>
  \<^verbatim>\<open>p.ParseBytes(data)\<close> and \<^verbatim>\<open>p.Parse(s)\<close> on the parser at address \<open>a\<close>.
  A Go pointer always refers to an object: the program only runs them on an address it
  has just allocated or taken from the idle set, which holds addresses of parser objects
  in every state the program reaches (\<open>pool_ok\<close> below).
\<close>

definition run_ParseBytes ::
  "('p, 'v, 'e, 'f) engine \<Rightarrow> nat \<Rightarrow> go_bytes \<Rightarrow> 'p world \<Rightarrow> ('e + 'v) \<times> 'p world" where
  "run_ParseBytes E a data w =
     (fst (Parser_ParseBytes E (parsers w ! a) data),
      w\<lparr>parsers := (parsers w)[a := snd (Parser_ParseBytes E (parsers w ! a) data)],
        events := events w @ [ParserRun a]\<rparr>)"

definition run_Parse ::
  "('p, 'v, 'e, 'f) engine \<Rightarrow> nat \<Rightarrow> string \<Rightarrow> 'p world \<Rightarrow> ('e + 'v) \<times> 'p world" where
  "run_Parse E a s w =
     (fst (Parser_Parse E (parsers w ! a) s),
      w\<lparr>parsers := (parsers w)[a := snd (Parser_Parse E (parsers w ! a) s)],
        events := events w @ [ParserRun a]\<rparr>)"

text \<open>\<^verbatim>\<open>big.NewInt(n)\<close>: a new big.Int object holding \<open>n\<close>, and its address.\<close>

definition big_NewInt :: "int \<Rightarrow> 'p world \<Rightarrow> nat option \<times> 'p world" where
  "big_NewInt n w = (Some (length (bigs w)), w\<lparr>bigs := bigs w @ [n]\<rparr>)"

section \<open>handy.go\<close>

definition GetString ::
  "('p, 'v, 'e, 'f) engine \<Rightarrow> go_bytes \<Rightarrow> string list \<Rightarrow> 'p world \<Rightarrow> string \<times> 'p world" where
  "GetString E data keys w =
     (let (p, w1) = ParserPool_Get E w;
          (r, w2) = run_ParseBytes E p data w1
      in case r of
           Inl err \<Rightarrow> ([], ParserPool_Put p w2)
         | Inr v \<Rightarrow>
             (let sb = Value_GetStringBytes E v keys;
                  str = go_string sb
              in (str, ParserPool_Put p w2)))"

definition GetBytes ::
  "('p, 'v, 'e, 'f) engine \<Rightarrow> go_bytes \<Rightarrow> string list \<Rightarrow> 'p world \<Rightarrow> go_bytes \<times> 'p world" where
  "GetBytes E data keys w =
     (let (p, w1) = ParserPool_Get E w;
          (r, w2) = run_ParseBytes E p data w1
      in case r of
           Inl err \<Rightarrow> (None, ParserPool_Put p w2)
         | Inr v \<Rightarrow>
             (let sb = Value_GetStringBytes E v keys;
                  b = (if sb \<noteq> None then go_append None sb else None)
              in (b, ParserPool_Put p w2)))"

definition GetInt ::
  "('p, 'v, 'e, 'f) engine \<Rightarrow> go_bytes \<Rightarrow> string list \<Rightarrow> 'p world \<Rightarrow> int \<times> 'p world" where
  "GetInt E data keys w =
     (let (p, w1) = ParserPool_Get E w;
          (r, w2) = run_ParseBytes E p data w1
      in case r of
           Inl err \<Rightarrow> (0, ParserPool_Put p w2)
         | Inr v \<Rightarrow> (Value_GetInt E v keys, ParserPool_Put p w2))"

definition GetHex ::
  "('p, 'v, 'e, 'f) engine \<Rightarrow> go_bytes \<Rightarrow> string list \<Rightarrow> 'p world \<Rightarrow> string \<times> 'p world" where
  "GetHex E data keys w =
     (let (p, w1) = ParserPool_Get E w;
          (r, w2) = run_ParseBytes E p data w1
      in case r of
           Inl err \<Rightarrow> ([], ParserPool_Put p w2)
         | Inr v \<Rightarrow> (Value_GetHex E v keys, ParserPool_Put p w2))"

definition GetBigint ::
  "('p, 'v, 'e, 'f) engine \<Rightarrow> go_bytes \<Rightarrow> string list \<Rightarrow> 'p world \<Rightarrow> nat option \<times> 'p world" where
  "GetBigint E data keys w =
     (let (p, w1) = ParserPool_Get E w;
          (r, w2) = run_ParseBytes E p data w1
      in case r of
           Inl err \<Rightarrow> big_NewInt 0 (ParserPool_Put p w2)
         | Inr v \<Rightarrow>
             (let (n, h) = Value_GetBigint E v keys (bigs w2)
              in (n, ParserPool_Put p (w2\<lparr>bigs := h\<rparr>))))"

definition GetFloat64 ::
  "('p, 'v, 'e, 'f::zero) engine \<Rightarrow> go_bytes \<Rightarrow> string list \<Rightarrow> 'p world \<Rightarrow> 'f \<times> 'p world" where
  "GetFloat64 E data keys w =
     (let (p, w1) = ParserPool_Get E w;
          (r, w2) = run_ParseBytes E p data w1
      in case r of
           Inl err \<Rightarrow> (0, ParserPool_Put p w2)
         | Inr v \<Rightarrow> (Value_GetFloat64 E v keys, ParserPool_Put p w2))"

definition GetBool ::
  "('p, 'v, 'e, 'f) engine \<Rightarrow> go_bytes \<Rightarrow> string list \<Rightarrow> 'p world \<Rightarrow> bool \<times> 'p world" where
  "GetBool E data keys w =
     (let (p, w1) = ParserPool_Get E w;
          (r, w2) = run_ParseBytes E p data w1
      in case r of
           Inl err \<Rightarrow> (False, ParserPool_Put p w2)
         | Inr v \<Rightarrow> (Value_GetBool E v keys, ParserPool_Put p w2))"

definition Exists ::
  "('p, 'v, 'e, 'f) engine \<Rightarrow> go_bytes \<Rightarrow> string list \<Rightarrow> 'p world \<Rightarrow> bool \<times> 'p world" where
  "Exists E data keys w =
     (let (p, w1) = ParserPool_Get E w;
          (r, w2) = run_ParseBytes E p data w1
      in case r of
           Inl err \<Rightarrow> (False, ParserPool_Put p w2)
         | Inr v \<Rightarrow> (Value_Exists E v keys, ParserPool_Put p w2))"

text \<open>
  \<^verbatim>\<open>var p Parser; return p.Parse(s)\<close>: the local parser is a new object (the returned
  Value refers to it, so it outlives the call); it is never handed to the pool.
\<close>

definition new_Parser :: "('p, 'v, 'e, 'f) engine \<Rightarrow> 'p world \<Rightarrow> nat \<times> 'p world" where
  "new_Parser E w = (length (parsers w), w\<lparr>parsers := parsers w @ [zero_Parser E]\<rparr>)"

definition Parse ::
  "('p, 'v, 'e, 'f) engine \<Rightarrow> string \<Rightarrow> 'p world \<Rightarrow> ('e + 'v) \<times> 'p world" where
  "Parse E s w = (let (p, w1) = new_Parser E w in run_Parse E p s w1)"

definition MustParse ::
  "('p, 'v, 'e, 'f) engine \<Rightarrow> string \<Rightarrow> 'p world \<Rightarrow> ('e abort + 'v) \<times> 'p world" where
  "MustParse E s w =
     (let (r, w1) = Parse E s w
      in case r of Inl err \<Rightarrow> (Inl (Panic err), w1) | Inr v \<Rightarrow> (Inr v, w1))"

definition ParseBytes ::
  "('p, 'v, 'e, 'f) engine \<Rightarrow> go_bytes \<Rightarrow> 'p world \<Rightarrow> ('e + 'v) \<times> 'p world" where
  "ParseBytes E b w = (let (p, w1) = new_Parser E w in run_ParseBytes E p b w1)"

definition MustParseBytes ::
  "('p, 'v, 'e, 'f) engine \<Rightarrow> go_bytes \<Rightarrow> 'p world \<Rightarrow> ('e abort + 'v) \<times> 'p world" where
  "MustParseBytes E b w =
     (let (r, w1) = ParseBytes E b w
      in case r of Inl err \<Rightarrow> (Inl (Panic err), w1) | Inr v \<Rightarrow> (Inr v, w1))"

section \<open>handy.go, with the memory a byte slice refers to\<close>

text \<open>
  handy.go: "Make a copy of sb, since sb belongs to p." The functions above give the
  bytes a result holds when it is returned. A \<^verbatim>\<open>[]byte\<close> refers to memory, and
  what is read through it later depends on who else writes that memory. So a slice is
  here nil, or a view into the memory of the parser at an address (a \<open>ParserView\<close>:
  the function gives the bytes seen through the slice in a state of that parser, and a
  new parse on the parser changes them), or it refers to a new array that nothing
  else refers to (a \<open>NewArray\<close> with its bytes).
\<close>

datatype 'p slice = NilSlice | ParserView nat "'p \<Rightarrow> char list" | NewArray "char list"

text \<open>The bytes read through a slice in state \<open>w\<close>.\<close>

definition read_slice :: "'p world \<Rightarrow> 'p slice \<Rightarrow> char list" where
  "read_slice w s =
     (case s of NilSlice \<Rightarrow> [] | ParserView a vw \<Rightarrow> vw (parsers w ! a) | NewArray bs \<Rightarrow> bs)"

definition is_nil :: "'p slice \<Rightarrow> bool" where
  "is_nil s = (case s of NilSlice \<Rightarrow> True | ParserView a vw \<Rightarrow> False | NewArray bs \<Rightarrow> False)"

text \<open>
  \<^verbatim>\<open>append(b, sb...)\<close> in state \<open>w\<close>, for a \<open>b\<close> without spare capacity (as the
  nil slice): \<open>b\<close> itself when \<open>sb\<close> has no element, otherwise a new array with the
  bytes read through \<open>b\<close> and \<open>sb\<close> now.
\<close>

definition append_slice :: "'p world \<Rightarrow> 'p slice \<Rightarrow> 'p slice \<Rightarrow> 'p slice" where
  "append_slice w b sb =
     (if read_slice w sb = [] then b else NewArray (read_slice w b @ read_slice w sb))"

text \<open>
  \<open>V\<close> is \<^verbatim>\<open>Value.GetStringBytes\<close> with the memory its result refers to: nil, or
  a view into the parser that produced the value. \<^verbatim>\<open>string(sb)\<close> reads the bytes
  when it is executed, and a Go string never changes.
\<close>

definition GetString_mem ::
  "('p, 'v, 'e, 'f) engine \<Rightarrow> ('v \<Rightarrow> string list \<Rightarrow> ('p \<Rightarrow> char list) option)
    \<Rightarrow> go_bytes \<Rightarrow> string list \<Rightarrow> 'p world \<Rightarrow> string \<times> 'p world" where
  "GetString_mem E V data keys w =
     (let (p, w1) = ParserPool_Get E w;
          (r, w2) = run_ParseBytes E p data w1
      in case r of
           Inl err \<Rightarrow> ([], ParserPool_Put p w2)
         | Inr v \<Rightarrow>
             (let sb = (case V v keys of None \<Rightarrow> NilSlice | Some vw \<Rightarrow> ParserView p vw);
                  str = read_slice w2 sb
              in (str, ParserPool_Put p w2)))"

definition GetBytes_mem ::
  "('p, 'v, 'e, 'f) engine \<Rightarrow> ('v \<Rightarrow> string list \<Rightarrow> ('p \<Rightarrow> char list) option)
    \<Rightarrow> go_bytes \<Rightarrow> string list \<Rightarrow> 'p world \<Rightarrow> 'p slice \<times> 'p world" where
  "GetBytes_mem E V data keys w =
     (let (p, w1) = ParserPool_Get E w;
          (r, w2) = run_ParseBytes E p data w1
      in case r of
           Inl err \<Rightarrow> (NilSlice, ParserPool_Put p w2)
         | Inr v \<Rightarrow>
             (let sb = (case V v keys of None \<Rightarrow> NilSlice | Some vw \<Rightarrow> ParserView p vw);
                  b = (if \<not> is_nil sb then append_slice w2 NilSlice sb else NilSlice)
              in (b, ParserPool_Put p w2)))"

section \<open>Sequences of calls\<close>

text \<open>
  A caller's calls of the functions of handy.go, one after the other; \<open>exec_calls\<close>
  gives the state they leave (a panic of a Must function leaves the state its parse left).
\<close>

datatype call =
    CallGetString go_bytes "string list"
  | CallGetBytes go_bytes "string list"
  | CallGetInt go_bytes "string list"
  | CallGetHex go_bytes "string list"
  | CallGetBigint go_bytes "string list"
  | CallGetFloat64 go_bytes "string list"
  | CallGetBool go_bytes "string list"
  | CallExists go_bytes "string list"
  | CallParse string
  | CallMustParse string
  | CallParseBytes go_bytes
  | CallMustParseBytes go_bytes

fun exec_call :: "('p, 'v, 'e, 'f::zero) engine \<Rightarrow> call \<Rightarrow> 'p world \<Rightarrow> 'p world" where
  "exec_call E (CallGetString d ks) w = snd (GetString E d ks w)"
| "exec_call E (CallGetBytes d ks) w = snd (GetBytes E d ks w)"
| "exec_call E (CallGetInt d ks) w = snd (GetInt E d ks w)"
| "exec_call E (CallGetHex d ks) w = snd (GetHex E d ks w)"
| "exec_call E (CallGetBigint d ks) w = snd (GetBigint E d ks w)"
| "exec_call E (CallGetFloat64 d ks) w = snd (GetFloat64 E d ks w)"
| "exec_call E (CallGetBool d ks) w = snd (GetBool E d ks w)"
| "exec_call E (CallExists d ks) w = snd (Exists E d ks w)"
| "exec_call E (CallParse s) w = snd (Parse E s w)"
| "exec_call E (CallMustParse s) w = snd (MustParse E s w)"
| "exec_call E (CallParseBytes b) w = snd (ParseBytes E b w)"
| "exec_call E (CallMustParseBytes b) w = snd (MustParseBytes E b w)"

fun exec_calls :: "('p, 'v, 'e, 'f::zero) engine \<Rightarrow> call list \<Rightarrow> 'p world \<Rightarrow> 'p world" where
  "exec_calls E [] w = w"
| "exec_calls E (c # cs) w = exec_calls E cs (exec_call E c w)"

text \<open>The state of a program that has called nothing yet.\<close>

definition init_world :: "'p world" where
  "init_world = \<lparr>parsers = [], idle = [], bigs = [], events = []\<rparr>"

section \<open>The document engine as the spec describes it\<close>

text \<open>
  Modelled from the spec: the parsed document and the methods \<^verbatim>\<open>Value.GetStringBytes\<close>,
  \<^verbatim>\<open>GetInt\<close>, \<^verbatim>\<open>GetHex\<close>, \<^verbatim>\<open>GetBigint\<close>, \<^verbatim>\<open>GetFloat64\<close>,
  \<^verbatim>\<open>GetBool\<close> and \<^verbatim>\<open>Exists\<close>, whose code is not in handy.go. A node is of one
  of the JSON types (object, array, string, number, boolean, null); a number node
  carries the integer it denotes (the spec leaves rounding and overflow to the engine).
\<close>

datatype json =
    JNull
  | JBool bool
  | JNumber int
  | JString string
  | JArray "json list"
  | JObject "(string \<times> json) list"

text \<open>
  "A segment that parses as a non-negative decimal integer is interpreted as an array
  index when the current node is array-typed; otherwise every segment is treated as an
  object key."
\<close>

definition is_digit :: "char \<Rightarrow> bool" where
  "is_digit c = (48 \<le> (of_char c :: nat) \<and> (of_char c :: nat) \<le> 57)"

definition is_index :: "string \<Rightarrow> bool" where
  "is_index k = (k \<noteq> [] \<and> list_all is_digit k)"

definition decimal :: "string \<Rightarrow> nat" where
  "decimal k = foldl (\<lambda>n c. 10 * n + (of_char c - 48)) 0 k"

text \<open>
  One step of navigation: "a missing key, an out-of-range index, or [a descent]
  through a non-container node yields absent" (\<open>None\<close>).
\<close>

definition child :: "json \<Rightarrow> string \<Rightarrow> json option" where
  "child n k =
     (case n of
        JObject kvs \<Rightarrow> map_of kvs k
      | JArray xs \<Rightarrow>
          (if is_index k \<and> decimal k < length xs then Some (xs ! decimal k) else None)
      | _ \<Rightarrow> None)"

text \<open>
  "The path is resolved segment-by-segment from the document root. Empty path
  resolves to the root node."
\<close>

fun navigate :: "json \<Rightarrow> string list \<Rightarrow> json option" where
  "navigate n [] = Some n"
| "navigate n (k # ks) = (case child n k of None \<Rightarrow> None | Some c \<Rightarrow> navigate c ks)"

text \<open>
  "Parser: owns internal scratch buffers and the most recently produced parse tree."
\<close>

record parser_state =
  buffer :: string
  tree :: "json option"

text \<open>
  The engine of the spec. Its parameters are what the spec leaves to the engine: the
  JSON grammar \<open>G\<close> (a text is a document or a parse error), the float64 a number
  node coerces to (\<open>fl\<close>) and the text a node coerces to as hexadecimal (\<open>hx\<close>).
  "Coercion of absent or of a node of an incompatible shape yields the type's declared
  default": the nil slice, 0, the empty string, a big.Int holding zero, 0.0, false.
\<close>

definition spec_engine ::
  "(string \<Rightarrow> 'e + json) \<Rightarrow> (int \<Rightarrow> 'f::zero) \<Rightarrow> (json \<Rightarrow> string)
    \<Rightarrow> (parser_state, json, 'e, 'f) engine" where
  "spec_engine G fl hx =
     \<lparr>zero_Parser = \<lparr>buffer = [], tree = None\<rparr>,
      Parser_Parse = (\<lambda>p s.
         (G s, \<lparr>buffer = s, tree = (case G s of Inl err \<Rightarrow> None | Inr v \<Rightarrow> Some v)\<rparr>)),
      Parser_ParseBytes = (\<lambda>p b.
         (G (go_string b),
          \<lparr>buffer = go_string b,
            tree = (case G (go_string b) of Inl err \<Rightarrow> None | Inr v \<Rightarrow> Some v)\<rparr>)),
      Value_GetStringBytes = (\<lambda>v ks.
         case navigate v ks of Some (JString s) \<Rightarrow> Some s | _ \<Rightarrow> None),
      Value_GetInt = (\<lambda>v ks.
         case navigate v ks of Some (JNumber n) \<Rightarrow> n | _ \<Rightarrow> 0),
      Value_GetHex = (\<lambda>v ks.
         case navigate v ks of Some n \<Rightarrow> hx n | None \<Rightarrow> []),
      Value_GetBigint = (\<lambda>v ks h.
         case navigate v ks of
           Some (JNumber n) \<Rightarrow> (Some (length h), h @ [n])
         | _ \<Rightarrow> (Some (length h), h @ [0])),
      Value_GetFloat64 = (\<lambda>v ks.
         case navigate v ks of Some (JNumber n) \<Rightarrow> fl n | _ \<Rightarrow> 0),
      Value_GetBool = (\<lambda>v ks.
         case navigate v ks of Some (JBool b) \<Rightarrow> b | _ \<Rightarrow> False),
      Value_Exists = (\<lambda>v ks.
         case navigate v ks of Some n \<Rightarrow> True | None \<Rightarrow> False)\<rparr>"

text \<open>
  Modelled from the spec: the memory side of \<^verbatim>\<open>Value.GetStringBytes\<close>. "The source
  bytes are a view into the parser's internal buffer and become unsafe to read once
  the parser is released or reused": while the parser holds the document, the view of
  a string node shows the node's bytes; after a new parse it shows what the parser
  holds at that path then.
\<close>

definition spec_view :: "json \<Rightarrow> string list \<Rightarrow> (parser_state \<Rightarrow> char list) option" where
  "spec_view v ks =
     (case navigate v ks of
        Some (JString s) \<Rightarrow>
          Some (\<lambda>p. case tree p of
                       None \<Rightarrow> []
                     | Some t \<Rightarrow> (case navigate t ks of Some (JString s') \<Rightarrow> s' | _ \<Rightarrow> []))
      | _ \<Rightarrow> None)"

text \<open>
  An instance to evaluate on. Its grammar knows the documents of the spec's example
  scenarios (and one with an empty string field) and rejects every other text, among
  them \<^verbatim>\<open>not json\<close>; a string node coerces to its text as hexadecimal.
\<close>

definition scenario_grammar :: "string \<Rightarrow> string + json" where
  \<open>scenario_grammar s =
     (if s = ''{"a":{"b":42}}'' then Inr (JObject [(''a'', JObject [(''b'', JNumber 42)])])
      else if s = ''{"arr":[10,20,30]}''
        then Inr (JObject [(''arr'', JArray [JNumber 10, JNumber 20, JNumber 30])])
      else if s = ''{"a":1}'' then Inr (JObject [(''a'', JNumber 1)])
      else if s = ''{"h":"1f"}'' then Inr (JObject [(''h'', JString ''1f'')])
      else if s = ''{"a":""}'' then Inr (JObject [(''a'', JString [])])
      else Inl ''cannot parse'')\<close>

definition scenario_engine :: "(parser_state, json, string, real) engine" where
  "scenario_engine =
     spec_engine scenario_grammar real_of_int (\<lambda>n. case n of JString s \<Rightarrow> s | _ \<Rightarrow> [])"

section \<open>Vocabulary of the claims\<close>

text \<open>The address \<^verbatim>\<open>handyPool.Get()\<close> returns in state \<open>w\<close>.\<close>

definition acquired :: "'p world \<Rightarrow> nat" where
  "acquired w = (case idle w of [] \<Rightarrow> length (parsers w) | a # rest \<Rightarrow> a)"

text \<open>
  A well-formed document: every parser, whatever it parsed before, parses \<open>data\<close>
  to the value \<open>v\<close>. A malformed input: every parser reports an error on it.
\<close>

definition well_formed :: "('p, 'v, 'e, 'f) engine \<Rightarrow> go_bytes \<Rightarrow> 'v \<Rightarrow> bool" where
  "well_formed E data v = (\<forall>p. fst (Parser_ParseBytes E p data) = Inr v)"

definition malformed :: "('p, 'v, 'e, 'f) engine \<Rightarrow> go_bytes \<Rightarrow> bool" where
  "malformed E data = (\<forall>p. isl (fst (Parser_ParseBytes E p data)))"

definition malformed_text :: "('p, 'v, 'e, 'f) engine \<Rightarrow> string \<Rightarrow> bool" where
  "malformed_text E s = (\<forall>p. isl (fst (Parser_Parse E p s)))"

text \<open>
  The path resolves to a string node with the bytes \<open>bs\<close>: every parser parses
  \<open>data\<close> to a value for which \<^verbatim>\<open>GetStringBytes\<close> returns a view that shows
  \<open>bs\<close> while the parser holds that document.
\<close>

definition string_node ::
  "('p, 'v, 'e, 'f) engine \<Rightarrow> ('v \<Rightarrow> string list \<Rightarrow> ('p \<Rightarrow> char list) option)
    \<Rightarrow> go_bytes \<Rightarrow> string list \<Rightarrow> char list \<Rightarrow> bool" where
  "string_node E V data keys bs =
     (\<forall>p. case fst (Parser_ParseBytes E p data) of
             Inl err \<Rightarrow> False
           | Inr v \<Rightarrow>
               (case V v keys of
                  None \<Rightarrow> False
                | Some vw \<Rightarrow> vw (snd (Parser_ParseBytes E p data)) = bs))"

text \<open>The result of the parse an accessor runs on \<open>data\<close> when called in state \<open>w\<close>.\<close>

definition accessor_parse :: "('p, 'v, 'e, 'f) engine \<Rightarrow> go_bytes \<Rightarrow> 'p world \<Rightarrow> 'e + 'v" where
  "accessor_parse E data w =
     fst (run_ParseBytes E (fst (ParserPool_Get E w)) data (snd (ParserPool_Get E w)))"

text \<open>
  The parser heap an accessor leaves when called on \<open>data\<close> in state \<open>w\<close>: the
  acquired parser (a new one when no parser is idle) has parsed \<open>data\<close>.
\<close>

definition parsers_after :: "('p, 'v, 'e, 'f) engine \<Rightarrow> go_bytes \<Rightarrow> 'p world \<Rightarrow> 'p list" where
  "parsers_after E data w =
     (case idle w of
        [] \<Rightarrow> parsers w @ [snd (Parser_ParseBytes E (zero_Parser E) data)]
      | a # rest \<Rightarrow> (parsers w)[a := snd (Parser_ParseBytes E (parsers w ! a) data)])"

text \<open>
  Every idle address is the address of a parser object. The initial state satisfies
  this and every call keeps it.
\<close>

definition pool_ok :: "'p world \<Rightarrow> bool" where
  "pool_ok w = list_all (\<lambda>a. a < length (parsers w)) (idle w)"

text \<open>The address an event is about.\<close>

fun event_addr :: "pool_event \<Rightarrow> nat" where
  "event_addr (PoolGet a) = a"
| "event_addr (ParserRun a) = a"
| "event_addr (PoolPut a) = a"

text \<open>
  From state \<open>w\<close> to state \<open>w'\<close> the parser at address \<open>a\<close> was left alone:
  it is still an object outside the idle set, its state is the same, and no event
  recorded since \<open>w\<close> is about it (it was not acquired, run or released).
\<close>

definition untouched :: "nat \<Rightarrow> 'p world \<Rightarrow> 'p world \<Rightarrow> bool" where
  "untouched a w w' =
     (a < length (parsers w') \<and> a \<notin> set (idle w') \<and> parsers w' ! a = parsers w ! a \<and>
      take (length (events w)) (events w') = events w \<and>
      list_all (\<lambda>e. event_addr e \<noteq> a) (drop (length (events w)) (events w')))"

section \<open>Helper lemmas: the pool round trip of an accessor\<close>

text \<open>
  Every accessor acquires a parser, runs the parse on it and releases it; these lemmas
  give the idle set, the event record and the parser heap it leaves.
\<close>

lemmas pool_defs = ParserPool_Get_def ParserPool_Put_def run_ParseBytes_def run_Parse_def
  big_NewInt_def new_Parser_def

lemmas accessor_defs = GetString_def GetBytes_def GetInt_def GetHex_def GetBigint_def
  GetFloat64_def GetBool_def Exists_def

lemma bigs_ParserPool_Get: "bigs (snd (ParserPool_Get E w)) = bigs w"
  by (simp add: ParserPool_Get_def split: list.split)

lemma bigs_run_ParseBytes: "bigs (snd (run_ParseBytes E a d w)) = bigs w"
  by (simp add: run_ParseBytes_def)

lemma bigs_ParserPool_Put: "bigs (ParserPool_Put a w) = bigs w"
  by (simp add: ParserPool_Put_def)

lemmas bigs_simps = bigs_ParserPool_Get bigs_run_ParseBytes bigs_ParserPool_Put

lemma fst_ParserPool_Get: "fst (ParserPool_Get E w) = acquired w"
  by (simp add: ParserPool_Get_def acquired_def split: list.split)

lemma events_round:
  "events (ParserPool_Put (acquired w) (snd (run_ParseBytes E (acquired w) d (snd (ParserPool_Get E w)))))
     = events w @ [PoolGet (acquired w), ParserRun (acquired w), PoolPut (acquired w)]"
  by (simp add: pool_defs acquired_def split: list.split)

lemma idle_round:
  "idle (ParserPool_Put (acquired w) (snd (run_ParseBytes E (acquired w) d (snd (ParserPool_Get E w)))))
     = acquired w # drop 1 (idle w)"
  by (simp add: pool_defs acquired_def split: list.split)

lemma events_big_NewInt: "events (snd (big_NewInt n w)) = events w"
  by (simp add: big_NewInt_def)

lemma idle_big_NewInt: "idle (snd (big_NewInt n w)) = idle w"
  by (simp add: big_NewInt_def)

lemma events_Put_bigs: "events (ParserPool_Put a (w\<lparr>bigs := h\<rparr>)) = events (ParserPool_Put a w)"
  by (simp add: ParserPool_Put_def)

lemma idle_Put_bigs: "idle (ParserPool_Put a (w\<lparr>bigs := h\<rparr>)) = idle (ParserPool_Put a w)"
  by (simp add: ParserPool_Put_def)

lemmas round_simps = fst_ParserPool_Get events_round idle_round events_big_NewInt idle_big_NewInt
  events_Put_bigs idle_Put_bigs

lemma events_GetString:
  "events (snd (GetString E d ks w)) =
     events w @ [PoolGet (acquired w), ParserRun (acquired w), PoolPut (acquired w)]"
  by (simp add: GetString_def Let_def case_prod_beta round_simps split: sum.split)

lemma idle_GetString: "idle (snd (GetString E d ks w)) = acquired w # drop 1 (idle w)"
  by (simp add: GetString_def Let_def case_prod_beta round_simps split: sum.split)

lemma events_GetBytes:
  "events (snd (GetBytes E d ks w)) =
     events w @ [PoolGet (acquired w), ParserRun (acquired w), PoolPut (acquired w)]"
  by (simp add: GetBytes_def Let_def case_prod_beta round_simps split: sum.split)

lemma idle_GetBytes: "idle (snd (GetBytes E d ks w)) = acquired w # drop 1 (idle w)"
  by (simp add: GetBytes_def Let_def case_prod_beta round_simps split: sum.split)

lemma events_GetInt:
  "events (snd (GetInt E d ks w)) =
     events w @ [PoolGet (acquired w), ParserRun (acquired w), PoolPut (acquired w)]"
  by (simp add: GetInt_def Let_def case_prod_beta round_simps split: sum.split)

lemma idle_GetInt: "idle (snd (GetInt E d ks w)) = acquired w # drop 1 (idle w)"
  by (simp add: GetInt_def Let_def case_prod_beta round_simps split: sum.split)

lemma events_GetHex:
  "events (snd (GetHex E d ks w)) =
     events w @ [PoolGet (acquired w), ParserRun (acquired w), PoolPut (acquired w)]"
  by (simp add: GetHex_def Let_def case_prod_beta round_simps split: sum.split)

lemma idle_GetHex: "idle (snd (GetHex E d ks w)) = acquired w # drop 1 (idle w)"
  by (simp add: GetHex_def Let_def case_prod_beta round_simps split: sum.split)

lemma events_GetBigint:
  "events (snd (GetBigint E d ks w)) =
     events w @ [PoolGet (acquired w), ParserRun (acquired w), PoolPut (acquired w)]"
  by (simp add: GetBigint_def Let_def case_prod_beta round_simps split: sum.split)

lemma idle_GetBigint: "idle (snd (GetBigint E d ks w)) = acquired w # drop 1 (idle w)"
  by (simp add: GetBigint_def Let_def case_prod_beta round_simps split: sum.split)

lemma events_GetFloat64:
  "events (snd (GetFloat64 E d ks w)) =
     events w @ [PoolGet (acquired w), ParserRun (acquired w), PoolPut (acquired w)]"
  by (simp add: GetFloat64_def Let_def case_prod_beta round_simps split: sum.split)

lemma idle_GetFloat64: "idle (snd (GetFloat64 E d ks w)) = acquired w # drop 1 (idle w)"
  by (simp add: GetFloat64_def Let_def case_prod_beta round_simps split: sum.split)

lemma events_GetBool:
  "events (snd (GetBool E d ks w)) =
     events w @ [PoolGet (acquired w), ParserRun (acquired w), PoolPut (acquired w)]"
  by (simp add: GetBool_def Let_def case_prod_beta round_simps split: sum.split)

lemma idle_GetBool: "idle (snd (GetBool E d ks w)) = acquired w # drop 1 (idle w)"
  by (simp add: GetBool_def Let_def case_prod_beta round_simps split: sum.split)

lemma events_Exists:
  "events (snd (Exists E d ks w)) =
     events w @ [PoolGet (acquired w), ParserRun (acquired w), PoolPut (acquired w)]"
  by (simp add: Exists_def Let_def case_prod_beta round_simps split: sum.split)

lemma idle_Exists: "idle (snd (Exists E d ks w)) = acquired w # drop 1 (idle w)"
  by (simp add: Exists_def Let_def case_prod_beta round_simps split: sum.split)

lemmas events_accessors = events_GetString events_GetBytes events_GetInt events_GetHex events_GetBigint events_GetFloat64 events_GetBool events_Exists

lemmas idle_accessors = idle_GetString idle_GetBytes idle_GetInt idle_GetHex idle_GetBigint idle_GetFloat64 idle_GetBool idle_Exists

lemma parsers_round:
  "parsers (ParserPool_Put (acquired w)
      (snd (run_ParseBytes E (acquired w) d (snd (ParserPool_Get E w))))) = parsers_after E d w"
  by (simp add: pool_defs acquired_def parsers_after_def split: list.split)

lemma parsers_big_NewInt: "parsers (snd (big_NewInt n w)) = parsers w"
  by (simp add: big_NewInt_def)

lemma parsers_Put_bigs:
  "parsers (ParserPool_Put a (w\<lparr>bigs := h\<rparr>)) = parsers (ParserPool_Put a w)"
  by (simp add: ParserPool_Put_def)

lemmas parsers_round_simps = fst_ParserPool_Get parsers_round parsers_big_NewInt parsers_Put_bigs

lemma parsers_GetString: "parsers (snd (GetString E d ks w)) = parsers_after E d w"
  by (simp add: GetString_def Let_def case_prod_beta parsers_round_simps split: sum.split)

lemma parsers_GetBytes: "parsers (snd (GetBytes E d ks w)) = parsers_after E d w"
  by (simp add: GetBytes_def Let_def case_prod_beta parsers_round_simps split: sum.split)

lemma parsers_GetInt: "parsers (snd (GetInt E d ks w)) = parsers_after E d w"
  by (simp add: GetInt_def Let_def case_prod_beta parsers_round_simps split: sum.split)

lemma parsers_GetHex: "parsers (snd (GetHex E d ks w)) = parsers_after E d w"
  by (simp add: GetHex_def Let_def case_prod_beta parsers_round_simps split: sum.split)

lemma parsers_GetBigint: "parsers (snd (GetBigint E d ks w)) = parsers_after E d w"
  by (simp add: GetBigint_def Let_def case_prod_beta parsers_round_simps split: sum.split)

lemma parsers_GetFloat64: "parsers (snd (GetFloat64 E d ks w)) = parsers_after E d w"
  by (simp add: GetFloat64_def Let_def case_prod_beta parsers_round_simps split: sum.split)

lemma parsers_GetBool: "parsers (snd (GetBool E d ks w)) = parsers_after E d w"
  by (simp add: GetBool_def Let_def case_prod_beta parsers_round_simps split: sum.split)

lemma parsers_Exists: "parsers (snd (Exists E d ks w)) = parsers_after E d w"
  by (simp add: Exists_def Let_def case_prod_beta parsers_round_simps split: sum.split)

section \<open>Helper lemmas: what the accessors return\<close>

text \<open>
  The value an accessor returns, by the outcome of its parse.
\<close>

lemma run_ParseBytes_well_formed:
  "well_formed E d v \<Longrightarrow> fst (run_ParseBytes E a d w) = Inr v"
  by (simp add: well_formed_def run_ParseBytes_def)

lemma run_ParseBytes_malformed:
  assumes "malformed E d"
  obtains err where "fst (run_ParseBytes E a d w) = Inl err"
  using assms by (simp add: malformed_def run_ParseBytes_def) (metis isl_def)

lemma go_append_nil: "go_append None sb = (if go_elems sb = [] then None else Some (go_elems sb))"
  by (simp add: go_append_def go_elems_def)

lemma go_string_Some: "go_string (Some bs) = bs"
  by (simp add: go_string_def go_elems_def)

lemma go_string_go_append_nil: "go_string (go_append None sb) = go_string sb"
  by (simp add: go_string_def go_append_def go_elems_def)

lemma accessors_well_formed:
  assumes "well_formed E d v"
  shows "fst (GetString E d ks w) = go_string (Value_GetStringBytes E v ks)"
    and "fst (GetBytes E d ks w) = go_append None (Value_GetStringBytes E v ks)"
    and "fst (GetInt E d ks w) = Value_GetInt E v ks"
    and "fst (GetHex E d ks w) = Value_GetHex E v ks"
    and "(fst (GetBigint E d ks w), bigs (snd (GetBigint E d ks w))) =
           Value_GetBigint E v ks (bigs w)"
    and "fst (GetBool E d ks w) = Value_GetBool E v ks"
    and "fst (Exists E d ks w) = Value_Exists E v ks"
  by (simp_all add: accessor_defs Let_def case_prod_beta go_append_def go_elems_def bigs_simps
      run_ParseBytes_well_formed [OF assms])

lemma GetFloat64_well_formed:
  assumes "well_formed E d v"
  shows "fst (GetFloat64 E d ks w) = Value_GetFloat64 E v ks"
  by (simp add: GetFloat64_def Let_def case_prod_beta run_ParseBytes_well_formed [OF assms])

lemma accessors_malformed:
  assumes "malformed E d"
  shows "fst (GetString E d ks w) = []"
    and "fst (GetBytes E d ks w) = None"
    and "fst (GetInt E d ks w) = 0"
    and "fst (GetHex E d ks w) = []"
    and "fst (GetBigint E d ks w) = Some (length (bigs w))"
    and "bigs (snd (GetBigint E d ks w)) = bigs w @ [0]"
    and "fst (GetBool E d ks w) = False"
    and "fst (Exists E d ks w) = False"
proof -
  obtain err where
    "fst (run_ParseBytes E (fst (ParserPool_Get E w)) d (snd (ParserPool_Get E w))) = Inl err"
    using run_ParseBytes_malformed [OF assms] by blast
  then show "fst (GetString E d ks w) = []"
    and "fst (GetBytes E d ks w) = None"
    and "fst (GetInt E d ks w) = 0"
    and "fst (GetHex E d ks w) = []"
    and "fst (GetBigint E d ks w) = Some (length (bigs w))"
    and "bigs (snd (GetBigint E d ks w)) = bigs w @ [0]"
    and "fst (GetBool E d ks w) = False"
    and "fst (Exists E d ks w) = False"
    by (simp_all add: accessor_defs Let_def case_prod_beta big_NewInt_def bigs_simps)
qed

lemma GetFloat64_malformed:
  assumes "malformed E d"
  shows "fst (GetFloat64 E d ks w) = 0"
proof -
  obtain err where
    "fst (run_ParseBytes E (fst (ParserPool_Get E w)) d (snd (ParserPool_Get E w))) = Inl err"
    using run_ParseBytes_malformed [OF assms] by blast
  then show ?thesis
    by (simp add: GetFloat64_def Let_def case_prod_beta)
qed

lemma GetBigint_parse:
  "fst (GetBigint E d ks w) =
     (case accessor_parse E d w of
        Inl err \<Rightarrow> Some (length (bigs w))
      | Inr v \<Rightarrow> fst (Value_GetBigint E v ks (bigs w)))"
  "bigs (snd (GetBigint E d ks w)) =
     (case accessor_parse E d w of
        Inl err \<Rightarrow> bigs w @ [0]
      | Inr v \<Rightarrow> snd (Value_GetBigint E v ks (bigs w)))"
  by (simp_all add: GetBigint_def accessor_parse_def Let_def case_prod_beta big_NewInt_def
      bigs_simps split: sum.split)

section \<open>Helper lemmas: the one-shot parse functions\<close>

text \<open>
  Parse and ParseBytes run a new parser; the Must variants add the panic.
\<close>

lemma fst_Parse: "fst (Parse E s w) = fst (Parser_Parse E (zero_Parser E) s)"
  by (simp add: Parse_def new_Parser_def run_Parse_def)

lemma fst_ParseBytes: "fst (ParseBytes E b w) = fst (Parser_ParseBytes E (zero_Parser E) b)"
  by (simp add: ParseBytes_def new_Parser_def run_ParseBytes_def)

lemma snd_Parse:
  "parsers (snd (Parse E s w)) = parsers w @ [snd (Parser_Parse E (zero_Parser E) s)]"
  "idle (snd (Parse E s w)) = idle w"
  "events (snd (Parse E s w)) = events w @ [ParserRun (length (parsers w))]"
  "bigs (snd (Parse E s w)) = bigs w"
  by (simp_all add: Parse_def new_Parser_def run_Parse_def)

lemma snd_ParseBytes:
  "parsers (snd (ParseBytes E b w)) = parsers w @ [snd (Parser_ParseBytes E (zero_Parser E) b)]"
  "idle (snd (ParseBytes E b w)) = idle w"
  "events (snd (ParseBytes E b w)) = events w @ [ParserRun (length (parsers w))]"
  "bigs (snd (ParseBytes E b w)) = bigs w"
  by (simp_all add: ParseBytes_def new_Parser_def run_ParseBytes_def)

lemma MustParse_cases:
  "MustParse E s w =
     (case fst (Parse E s w) of
        Inl err \<Rightarrow> (Inl (Panic err), snd (Parse E s w))
      | Inr v \<Rightarrow> (Inr v, snd (Parse E s w)))"
  by (simp add: MustParse_def case_prod_beta)

lemma MustParseBytes_cases:
  "MustParseBytes E b w =
     (case fst (ParseBytes E b w) of
        Inl err \<Rightarrow> (Inl (Panic err), snd (ParseBytes E b w))
      | Inr v \<Rightarrow> (Inr v, snd (ParseBytes E b w)))"
  by (simp add: MustParseBytes_def case_prod_beta)

lemma snd_MustParse: "snd (MustParse E s w) = snd (Parse E s w)"
  by (simp add: MustParse_cases split: sum.split)

lemma snd_MustParseBytes: "snd (MustParseBytes E b w) = snd (ParseBytes E b w)"
  by (simp add: MustParseBytes_cases split: sum.split)

section \<open>Helper lemmas: parsers outside the idle set\<close>

text \<open>
  The idle addresses stay addresses of parser objects, and a parser object that is not
  idle is not acquired, run, released or changed by any call.
\<close>

lemma acquired_cases:
  "pool_ok w \<Longrightarrow> a < length (parsers w) \<Longrightarrow> a \<notin> set (idle w) \<Longrightarrow> acquired w \<noteq> a"
  by (cases "idle w") (auto simp: acquired_def)

lemma parsers_after_private:
  assumes "pool_ok w" "a < length (parsers w)" "a \<notin> set (idle w)"
  shows "a < length (parsers_after E d w)" "parsers_after E d w ! a = parsers w ! a"
  using assms by (auto simp: parsers_after_def nth_append split: list.split)

lemma idle_after_private:
  assumes "pool_ok w" "a < length (parsers w)" "a \<notin> set (idle w)"
  shows "a \<notin> set (acquired w # drop 1 (idle w))"
  using assms acquired_cases [OF assms] by (auto dest: in_set_dropD)

lemma pool_ok_after:
  assumes "pool_ok w" "parsers w' = parsers_after E d w" "idle w' = acquired w # drop 1 (idle w)"
  shows "pool_ok w'"
  using assms
  by (cases "idle w") (auto simp: pool_ok_def parsers_after_def acquired_def list_all_iff)

lemma pool_ok_fresh:
  assumes "pool_ok w" "parsers w' = parsers w @ [p]" "idle w' = idle w"
  shows "pool_ok w'"
  using assms by (auto simp: pool_ok_def list_all_iff)

lemma pool_ok_exec_call:
  assumes "pool_ok w"
  shows "pool_ok (exec_call E c w)"
proof (cases c)
  case (CallGetString d ks)
  then show ?thesis
    using pool_ok_after [OF assms, of "snd (GetString E d ks w)" E d]
    by (simp add: parsers_GetString idle_GetString)
next
  case (CallGetBytes d ks)
  then show ?thesis
    using pool_ok_after [OF assms, of "snd (GetBytes E d ks w)" E d]
    by (simp add: parsers_GetBytes idle_GetBytes)
next
  case (CallGetInt d ks)
  then show ?thesis
    using pool_ok_after [OF assms, of "snd (GetInt E d ks w)" E d]
    by (simp add: parsers_GetInt idle_GetInt)
next
  case (CallGetHex d ks)
  then show ?thesis
    using pool_ok_after [OF assms, of "snd (GetHex E d ks w)" E d]
    by (simp add: parsers_GetHex idle_GetHex)
next
  case (CallGetBigint d ks)
  then show ?thesis
    using pool_ok_after [OF assms, of "snd (GetBigint E d ks w)" E d]
    by (simp add: parsers_GetBigint idle_GetBigint)
next
  case (CallGetFloat64 d ks)
  then show ?thesis
    using pool_ok_after [OF assms, of "snd (GetFloat64 E d ks w)" E d]
    by (simp add: parsers_GetFloat64 idle_GetFloat64)
next
  case (CallGetBool d ks)
  then show ?thesis
    using pool_ok_after [OF assms, of "snd (GetBool E d ks w)" E d]
    by (simp add: parsers_GetBool idle_GetBool)
next
  case (CallExists d ks)
  then show ?thesis
    using pool_ok_after [OF assms, of "snd (Exists E d ks w)" E d]
    by (simp add: parsers_Exists idle_Exists)
next
  case (CallParse s)
  then show ?thesis
    using pool_ok_fresh [OF assms, of "snd (Parse E s w)"] by (simp add: snd_Parse)
next
  case (CallMustParse s)
  then show ?thesis
    using pool_ok_fresh [OF assms, of "snd (Parse E s w)"]
    by (simp add: snd_MustParse snd_Parse)
next
  case (CallParseBytes b)
  then show ?thesis
    using pool_ok_fresh [OF assms, of "snd (ParseBytes E b w)"] by (simp add: snd_ParseBytes)
next
  case (CallMustParseBytes b)
  then show ?thesis
    using pool_ok_fresh [OF assms, of "snd (ParseBytes E b w)"]
    by (simp add: snd_MustParseBytes snd_ParseBytes)
qed

lemma pool_ok_exec_calls: "pool_ok w \<Longrightarrow> pool_ok (exec_calls E cs w)"
  by (induction cs arbitrary: w) (simp_all add: pool_ok_exec_call)

lemma untouched_step:
  assumes "pool_ok w" "a < length (parsers w)" "a \<notin> set (idle w)"
  shows "a < length (parsers (exec_call E c w)) \<and>
         a \<notin> set (idle (exec_call E c w)) \<and>
         parsers (exec_call E c w) ! a = parsers w ! a \<and>
         (\<exists>evs. events (exec_call E c w) = events w @ evs \<and>
                list_all (\<lambda>e. event_addr e \<noteq> a) evs)"
proof -
  note acc = parsers_after_private [OF assms, of E] idle_after_private [OF assms]
    acquired_cases [OF assms]
  show ?thesis
  proof (cases c)
    case (CallGetString d ks)
    then show ?thesis
      using acc by (simp add: parsers_GetString idle_GetString events_GetString)
  next
    case (CallGetBytes d ks)
    then show ?thesis
      using acc by (simp add: parsers_GetBytes idle_GetBytes events_GetBytes)
  next
    case (CallGetInt d ks)
    then show ?thesis
      using acc by (simp add: parsers_GetInt idle_GetInt events_GetInt)
  next
    case (CallGetHex d ks)
    then show ?thesis
      using acc by (simp add: parsers_GetHex idle_GetHex events_GetHex)
  next
    case (CallGetBigint d ks)
    then show ?thesis
      using acc by (simp add: parsers_GetBigint idle_GetBigint events_GetBigint)
  next
    case (CallGetFloat64 d ks)
    then show ?thesis
      using acc by (simp add: parsers_GetFloat64 idle_GetFloat64 events_GetFloat64)
  next
    case (CallGetBool d ks)
    then show ?thesis
      using acc by (simp add: parsers_GetBool idle_GetBool events_GetBool)
  next
    case (CallExists d ks)
    then show ?thesis
      using acc by (simp add: parsers_Exists idle_Exists events_Exists)
  next
    case (CallParse s)
    then show ?thesis
      using assms by (simp add: snd_Parse nth_append)
  next
    case (CallMustParse s)
    then show ?thesis
      using assms by (simp add: snd_MustParse snd_Parse nth_append)
  next
    case (CallParseBytes b)
    then show ?thesis
      using assms by (simp add: snd_ParseBytes nth_append)
  next
    case (CallMustParseBytes b)
    then show ?thesis
      using assms by (simp add: snd_MustParseBytes snd_ParseBytes nth_append)
  qed
qed

lemma untouched_steps:
  assumes "pool_ok w" "a < length (parsers w)" "a \<notin> set (idle w)"
  shows "a < length (parsers (exec_calls E cs w)) \<and>
         a \<notin> set (idle (exec_calls E cs w)) \<and>
         parsers (exec_calls E cs w) ! a = parsers w ! a \<and>
         (\<exists>evs. events (exec_calls E cs w) = events w @ evs \<and>
                list_all (\<lambda>e. event_addr e \<noteq> a) evs)"
  using assms
proof (induction cs arbitrary: w)
  case Nil
  then show ?case by simp
next
  case (Cons c cs)
  from untouched_step [OF Cons.prems, of E c]
  obtain evs1 where s1: "a < length (parsers (exec_call E c w))"
      "a \<notin> set (idle (exec_call E c w))" "parsers (exec_call E c w) ! a = parsers w ! a"
      "events (exec_call E c w) = events w @ evs1" "list_all (\<lambda>e. event_addr e \<noteq> a) evs1"
    by blast
  from Cons.IH [OF pool_ok_exec_call [OF Cons.prems(1)] s1(1,2)]
  obtain evs2 where s2:
      "a < length (parsers (exec_calls E cs (exec_call E c w)))"
      "a \<notin> set (idle (exec_calls E cs (exec_call E c w)))"
      "parsers (exec_calls E cs (exec_call E c w)) ! a = parsers (exec_call E c w) ! a"
      "events (exec_calls E cs (exec_call E c w)) = events (exec_call E c w) @ evs2"
      "list_all (\<lambda>e. event_addr e \<noteq> a) evs2"
    by blast
  have "events (exec_calls E (c # cs) w) = events w @ (evs1 @ evs2) \<and>
    list_all (\<lambda>e. event_addr e \<noteq> a) (evs1 @ evs2)"
    using s1 s2 by simp
  then have "\<exists>evs. events (exec_calls E (c # cs) w) = events w @ evs \<and>
    list_all (\<lambda>e. event_addr e \<noteq> a) evs"
    by (rule exI)
  then show ?case
    using s1 s2 by simp
qed

lemma untouched_exec_calls:
  assumes "pool_ok w" "a < length (parsers w)" "a \<notin> set (idle w)"
  shows "untouched a w (exec_calls E cs w)"
proof -
  from untouched_steps [OF assms, of E cs]
  obtain evs where "a < length (parsers (exec_calls E cs w))"
      "a \<notin> set (idle (exec_calls E cs w))"
      "parsers (exec_calls E cs w) ! a = parsers w ! a"
      "events (exec_calls E cs w) = events w @ evs" "list_all (\<lambda>e. event_addr e \<noteq> a) evs"
    by blast
  then show ?thesis
    by (simp add: untouched_def)
qed

lemma pool_ok_init: "pool_ok init_world"
  by (simp add: pool_ok_def init_world_def)

section \<open>Helper lemmas: evaluating the engine of the spec\<close>

text \<open>
  The methods of \<open>spec_engine\<close>, and the instance on the documents it knows.
\<close>

lemma well_formed_spec_engine:
  "well_formed (spec_engine G fl hx) d v \<longleftrightarrow> G (go_string d) = Inr v"
  by (simp add: well_formed_def spec_engine_def)

lemma malformed_spec_engine:
  "malformed (spec_engine G fl hx) d \<longleftrightarrow> isl (G (go_string d))"
  by (simp add: malformed_def spec_engine_def)

lemma malformed_text_spec_engine:
  "malformed_text (spec_engine G fl hx) s \<longleftrightarrow> isl (G s)"
  by (simp add: malformed_text_def spec_engine_def)

lemmas spec_engine_simps = well_formed_spec_engine malformed_spec_engine
  malformed_text_spec_engine

lemma spec_engine_methods:
  "Value_GetStringBytes (spec_engine G fl hx) v ks =
     (case navigate v ks of Some (JString s) \<Rightarrow> Some s | _ \<Rightarrow> None)"
  "Value_GetInt (spec_engine G fl hx) v ks =
     (case navigate v ks of Some (JNumber n) \<Rightarrow> n | _ \<Rightarrow> 0)"
  "Value_GetHex (spec_engine G fl hx) v ks =
     (case navigate v ks of Some n \<Rightarrow> hx n | None \<Rightarrow> [])"
  "Value_GetBigint (spec_engine G fl hx) v ks h =
     (case navigate v ks of
        Some (JNumber n) \<Rightarrow> (Some (length h), h @ [n])
      | _ \<Rightarrow> (Some (length h), h @ [0]))"
  "Value_GetFloat64 (spec_engine G fl hx) v ks =
     (case navigate v ks of Some (JNumber n) \<Rightarrow> fl n | _ \<Rightarrow> 0)"
  "Value_GetBool (spec_engine G fl hx) v ks =
     (case navigate v ks of Some (JBool b) \<Rightarrow> b | _ \<Rightarrow> False)"
  "Value_Exists (spec_engine G fl hx) v ks =
     (case navigate v ks of Some n \<Rightarrow> True | None \<Rightarrow> False)"
  "zero_Parser (spec_engine G fl hx) = \<lparr>buffer = [], tree = None\<rparr>"
  "fst (Parser_Parse (spec_engine G fl hx) p s) = G s"
  "fst (Parser_ParseBytes (spec_engine G fl hx) p b) = G (go_string b)"
  by (simp_all add: spec_engine_def)

lemma spec_engine_GetBigint_not_nil:
  "fst (Value_GetBigint (spec_engine G fl hx) v ks h) = Some (length h)"
  by (simp add: spec_engine_methods split: option.split json.split)

lemma scenario_documents:
  \<open>scenario_grammar ''{"a":{"b":42}}'' = Inr (JObject [(''a'', JObject [(''b'', JNumber 42)])])\<close>
  \<open>scenario_grammar ''{"arr":[10,20,30]}'' =
     Inr (JObject [(''arr'', JArray [JNumber 10, JNumber 20, JNumber 30])])\<close>
  \<open>scenario_grammar ''{"a":1}'' = Inr (JObject [(''a'', JNumber 1)])\<close>
  \<open>scenario_grammar ''{"h":"1f"}'' = Inr (JObject [(''h'', JString ''1f'')])\<close>
  \<open>scenario_grammar ''{"a":""}'' = Inr (JObject [(''a'', JString [])])\<close>
  \<open>scenario_grammar ''not json'' = Inl ''cannot parse''\<close>
  by (simp_all add: scenario_grammar_def)

lemma scenario_not_json:
  "malformed scenario_engine (Some ''not json'')"
  "malformed_text scenario_engine ''not json''"
  by (simp_all add: scenario_engine_def spec_engine_simps go_string_Some scenario_documents)

lemma scenario_Parse_not_json:
  "fst (Parse scenario_engine ''not json'' w) = Inl ''cannot parse''"
  "fst (ParseBytes scenario_engine (Some ''not json'') w) = Inl ''cannot parse''"
  by (simp_all add: fst_Parse fst_ParseBytes scenario_engine_def spec_engine_methods
      go_string_Some scenario_documents)

lemma scenario_h:
  \<open>well_formed scenario_engine (Some ''{"h":"1f"}'') (JObject [(''h'', JString ''1f'')])\<close>
  "Value_GetStringBytes scenario_engine (JObject [(''h'', JString ''1f'')]) [''h''] = Some ''1f''"
  "Value_GetHex scenario_engine (JObject [(''h'', JString ''1f'')]) [''h''] = ''1f''"
  by (simp_all add: scenario_engine_def spec_engine_simps spec_engine_methods go_string_Some
      scenario_documents child_def)

lemma scenario_Parse_a1:
  \<open>fst (Parse scenario_engine ''{"a":1}'' w) = Inr (JObject [(''a'', JNumber 1)])\<close>
  \<open>fst (ParseBytes scenario_engine (Some ''{"a":1}'') w) = Inr (JObject [(''a'', JNumber 1)])\<close>
  by (simp_all add: fst_Parse fst_ParseBytes scenario_engine_def spec_engine_methods
      go_string_Some scenario_documents)

lemma scenario_accessor_parse:
  "accessor_parse scenario_engine d w = scenario_grammar (go_string d)"
  by (simp add: accessor_parse_def run_ParseBytes_def scenario_engine_def spec_engine_methods)

lemma scenario_navigate:
  "navigate (JObject [(''a'', JNumber 1)]) [''a'', ''x''] = None"
  "navigate (JObject [(''a'', JNumber 1)]) [''b''] = None"
  "navigate (JObject [(''arr'', JArray [JNumber 10, JNumber 20, JNumber 30])]) [''arr'', ''3''] = None"
  "navigate (JObject [(''arr'', JArray [JNumber 10, JNumber 20, JNumber 30])]) [''arr'', ''1''] =
     Some (JNumber 20)"
  by (simp_all add: child_def is_index_def is_digit_def decimal_def)

section \<open>Helper lemmas: byte slices and their memory\<close>

text \<open>
  While an accessor holds the parser, the view of a string node shows the node's bytes;
  the copy GetBytes makes is a new array.
\<close>

lemma acquired_in_range:
  assumes "pool_ok w"
  shows "fst (ParserPool_Get E w) < length (parsers (snd (ParserPool_Get E w)))"
  using assms by (cases "idle w") (simp_all add: ParserPool_Get_def pool_ok_def)

lemma held_parser:
  assumes "pool_ok w"
  shows "parsers (snd (run_ParseBytes E (fst (ParserPool_Get E w)) d (snd (ParserPool_Get E w))))
           ! fst (ParserPool_Get E w) =
         snd (Parser_ParseBytes E
                (parsers (snd (ParserPool_Get E w)) ! fst (ParserPool_Get E w)) d)"
  using acquired_in_range [OF assms, of E] by (simp add: run_ParseBytes_def)

lemma string_node_parse:
  assumes "string_node E V d ks bs"
  obtains v vw where "fst (Parser_ParseBytes E p d) = Inr v" "V v ks = Some vw"
    "vw (snd (Parser_ParseBytes E p d)) = bs"
proof -
  from assms have
    "case fst (Parser_ParseBytes E p d) of
       Inl err \<Rightarrow> False
     | Inr v \<Rightarrow> (case V v ks of None \<Rightarrow> False
                 | Some vw \<Rightarrow> vw (snd (Parser_ParseBytes E p d)) = bs)"
    unfolding string_node_def by blast
  then show ?thesis
    using that by (auto split: sum.splits option.splits)
qed

lemma mem_accessors_string_node:
  assumes "pool_ok w" and "string_node E V d ks bs"
  shows "fst (GetString_mem E V d ks w) = bs"
    and "fst (GetBytes_mem E V d ks w) = (if bs = [] then NilSlice else NewArray bs)"
proof -
  let ?a = "fst (ParserPool_Get E w)"
  let ?w1 = "snd (ParserPool_Get E w)"
  obtain v vw where p: "fst (Parser_ParseBytes E (parsers ?w1 ! ?a) d) = Inr v"
    "V v ks = Some vw" "vw (snd (Parser_ParseBytes E (parsers ?w1 ! ?a) d)) = bs"
    using string_node_parse [OF assms(2)] by blast
  have r: "fst (run_ParseBytes E ?a d ?w1) = Inr v"
    using p(1) by (simp add: run_ParseBytes_def)
  have rd: "read_slice (snd (run_ParseBytes E ?a d ?w1)) (ParserView ?a vw) = bs"
    using p(3) by (simp add: read_slice_def held_parser [OF assms(1)])
  show "fst (GetString_mem E V d ks w) = bs"
    by (simp add: GetString_mem_def Let_def case_prod_beta r p(2) rd)
  show "fst (GetBytes_mem E V d ks w) = (if bs = [] then NilSlice else NewArray bs)"
    by (simp add: GetBytes_mem_def Let_def case_prod_beta r p(2) rd is_nil_def append_slice_def)
       (simp add: read_slice_def)
qed

lemma snd_mem_accessors:
  "snd (GetString_mem E V d ks w) = snd (GetString E d ks w)"
  "snd (GetBytes_mem E V d ks w) = snd (GetBytes E d ks w)"
  by (simp_all add: GetString_mem_def GetBytes_mem_def GetString_def GetBytes_def Let_def
      case_prod_beta split: sum.split)

lemma read_NewArray: "read_slice w' (NewArray bs) = bs"
  by (simp add: read_slice_def)

lemma read_own_slice:
  "read_slice w' (if bs = [] then NilSlice else NewArray bs) = bs"
  by (simp add: read_slice_def)

lemma read_NilSlice: "read_slice w NilSlice = []"
  by (simp add: read_slice_def)

lemma go_elems_simps: "go_elems None = []" "go_elems (Some bs) = bs"
  by (simp_all add: go_elems_def)

lemma is_nil_read: "is_nil s \<Longrightarrow> read_slice w s = []"
  by (cases s) (simp_all add: is_nil_def read_slice_def)

text \<open>
  Where the view \<open>V\<close> returns shows, while the parser holds the document, the bytes
  \<^verbatim>\<open>Value_GetStringBytes\<close> reports, the functions with memory return what GetString
  and GetBytes return: the same string, the same bytes, nil for nil.
\<close>

lemma mem_accessors_agree:
  assumes "pool_ok w"
    and "\<forall>p v. fst (Parser_ParseBytes E p d) = Inr v \<longrightarrow>
           Value_GetStringBytes E v ks =
           map_option (\<lambda>vw. vw (snd (Parser_ParseBytes E p d))) (V v ks)"
  shows "fst (GetString_mem E V d ks w) = fst (GetString E d ks w)"
    and "read_slice w' (fst (GetBytes_mem E V d ks w)) = go_elems (fst (GetBytes E d ks w))"
    and "is_nil (fst (GetBytes_mem E V d ks w)) \<longleftrightarrow> fst (GetBytes E d ks w) = None"
proof -
  let ?a = "fst (ParserPool_Get E w)"
  let ?w1 = "snd (ParserPool_Get E w)"
  let ?w2 = "snd (run_ParseBytes E ?a d ?w1)"
  let ?sb = "\<lambda>v. case V v ks of None \<Rightarrow> NilSlice | Some vw \<Rightarrow> ParserView ?a vw"
  have r: "fst (run_ParseBytes E ?a d ?w1) = fst (Parser_ParseBytes E (parsers ?w1 ! ?a) d)"
    by (simp add: run_ParseBytes_def)
  have rd: "read_slice ?w2 (?sb v) = go_elems (Value_GetStringBytes E v ks)"
    if "fst (Parser_ParseBytes E (parsers ?w1 ! ?a) d) = Inr v" for v
    using assms(2) [rule_format, OF that]
    by (cases "V v ks") (simp_all add: read_slice_def held_parser [OF assms(1)] go_elems_def)
  have mem: "fst (GetBytes_mem E V d ks w) =
      (case fst (Parser_ParseBytes E (parsers ?w1 ! ?a) d) of
         Inl err \<Rightarrow> NilSlice
       | Inr v \<Rightarrow> if read_slice ?w2 (?sb v) = [] then NilSlice
                  else NewArray (read_slice ?w2 (?sb v)))"
    by (simp add: GetBytes_mem_def Let_def case_prod_beta r append_slice_def read_NilSlice
        is_nil_read split: sum.split)
  have val: "fst (GetBytes E d ks w) =
      (case fst (Parser_ParseBytes E (parsers ?w1 ! ?a) d) of
         Inl err \<Rightarrow> None
       | Inr v \<Rightarrow> if go_elems (Value_GetStringBytes E v ks) = [] then None
                  else Some (go_elems (Value_GetStringBytes E v ks)))"
    by (simp add: GetBytes_def Let_def case_prod_beta r go_append_def go_elems_def
        split: sum.split)
  show "fst (GetString_mem E V d ks w) = fst (GetString E d ks w)"
    by (simp add: GetString_mem_def GetString_def Let_def case_prod_beta r rd go_string_def
        split: sum.split)
  show "read_slice w' (fst (GetBytes_mem E V d ks w)) = go_elems (fst (GetBytes E d ks w))"
    unfolding mem val
    by (cases "fst (Parser_ParseBytes E (parsers ?w1 ! ?a) d)")
       (simp_all add: rd read_NilSlice read_NewArray go_elems_simps)
  show "is_nil (fst (GetBytes_mem E V d ks w)) \<longleftrightarrow> fst (GetBytes E d ks w) = None"
    unfolding mem val
    by (cases "fst (Parser_ParseBytes E (parsers ?w1 ! ?a) d)")
       (simp_all add: rd is_nil_def)
qed

section \<open>Helper lemmas: the big.Int heap\<close>

text \<open>
  Only GetBigint touches the big.Int heap, and with the engine of the spec every call
  only adds to it.
\<close>

lemma bigs_GetString: "bigs (snd (GetString E d ks w)) = bigs w"
  by (simp add: GetString_def Let_def case_prod_beta bigs_simps split: sum.split)

lemma bigs_GetBytes: "bigs (snd (GetBytes E d ks w)) = bigs w"
  by (simp add: GetBytes_def Let_def case_prod_beta bigs_simps split: sum.split)

lemma bigs_GetInt: "bigs (snd (GetInt E d ks w)) = bigs w"
  by (simp add: GetInt_def Let_def case_prod_beta bigs_simps split: sum.split)

lemma bigs_GetHex: "bigs (snd (GetHex E d ks w)) = bigs w"
  by (simp add: GetHex_def Let_def case_prod_beta bigs_simps split: sum.split)

lemma bigs_GetFloat64: "bigs (snd (GetFloat64 E d ks w)) = bigs w"
  by (simp add: GetFloat64_def Let_def case_prod_beta bigs_simps split: sum.split)

lemma bigs_GetBool: "bigs (snd (GetBool E d ks w)) = bigs w"
  by (simp add: GetBool_def Let_def case_prod_beta bigs_simps split: sum.split)

lemma bigs_Exists: "bigs (snd (Exists E d ks w)) = bigs w"
  by (simp add: Exists_def Let_def case_prod_beta bigs_simps split: sum.split)

lemma spec_engine_accessor_parse:
  "accessor_parse (spec_engine G fl hx) d w = G (go_string d)"
  by (simp add: accessor_parse_def run_ParseBytes_def spec_engine_methods)

lemma spec_engine_GetBigint:
  "fst (GetBigint (spec_engine G fl hx) d ks w) = Some (length (bigs w))"
  "\<exists>x. bigs (snd (GetBigint (spec_engine G fl hx) d ks w)) = bigs w @ [x]"
  by (simp_all add: GetBigint_parse spec_engine_methods
      split: sum.split option.split json.split)

lemma spec_engine_GetBigint_number:
  assumes "G (go_string d) = Inr doc" and "navigate doc ks = Some (JNumber n)"
  shows "bigs (snd (GetBigint (spec_engine G fl hx) d ks w)) = bigs w @ [n]"
  by (simp add: GetBigint_parse spec_engine_accessor_parse assms spec_engine_methods)

lemma bigs_exec_call_spec_engine:
  "\<exists>ext. bigs (exec_call (spec_engine G fl hx) c w) = bigs w @ ext"
proof (cases c)
  case (CallGetBigint d ks)
  then show ?thesis
    using spec_engine_GetBigint(2) [of G fl hx d ks w] by auto
qed (simp_all add: bigs_GetString bigs_GetBytes bigs_GetInt bigs_GetHex bigs_GetFloat64
    bigs_GetBool bigs_Exists snd_Parse snd_ParseBytes snd_MustParse snd_MustParseBytes)

lemma bigs_exec_calls_spec_engine:
  "\<exists>ext. bigs (exec_calls (spec_engine G fl hx) cs w) = bigs w @ ext"
proof (induction cs arbitrary: w)
  case Nil
  then show ?case by simp
next
  case (Cons c cs)
  obtain e1 where e1: "bigs (exec_call (spec_engine G fl hx) c w) = bigs w @ e1"
    using bigs_exec_call_spec_engine by blast
  obtain e2 where "bigs (exec_calls (spec_engine G fl hx) cs (exec_call (spec_engine G fl hx) c w))
      = bigs (exec_call (spec_engine G fl hx) c w) @ e2"
    using Cons.IH by blast
  then have "bigs (exec_calls (spec_engine G fl hx) (c # cs) w) = bigs w @ (e1 @ e2)"
    using e1 by simp
  then show ?case by (rule exI)
qed

lemma big_Int_kept:
  assumes "a < length (bigs w)"
  shows "bigs (exec_calls (spec_engine G fl hx) cs w) ! a = bigs w ! a"
proof -
  obtain ext where "bigs (exec_calls (spec_engine G fl hx) cs w) = bigs w @ ext"
    using bigs_exec_calls_spec_engine by blast
  then show ?thesis
    using assms by (simp add: nth_append)
qed

lemma scenario_string_node:
  \<open>string_node scenario_engine spec_view (Some ''{"h":"1f"}'') [''h''] ''1f''\<close>
  by (simp add: string_node_def scenario_engine_def spec_engine_def go_string_Some
      scenario_documents spec_view_def child_def)

lemma scenario_b42:
  \<open>scenario_grammar (go_string (Some ''{"a":{"b":42}}'')) =
     Inr (JObject [(''a'', JObject [(''b'', JNumber 42)])])\<close>
  "navigate (JObject [(''a'', JObject [(''b'', JNumber 42)])]) [''a'', ''b''] = Some (JNumber 42)"
  by (simp_all add: go_string_Some scenario_documents child_def)

text \<open>
  A view into a parser is not a copy: the view of the string field \<^verbatim>\<open>h\<close> shows its
  bytes while the parser holds that document, and no byte once a later call has reused
  the parser for another document.
\<close>

lemma parser_view_changes_on_reuse:
  \<open>(case spec_view (JObject [(''h'', JString ''1f'')]) [''h''] of
       None \<Rightarrow> False
     | Some vw \<Rightarrow>
         read_slice (snd (GetBytes_mem scenario_engine spec_view (Some ''{"h":"1f"}'') [''h'']
                init_world)) (ParserView 0 vw) = ''1f'' \<and>
         read_slice
           (exec_calls scenario_engine [CallGetInt (Some ''{"a":1}'') [''a'']]
             (snd (GetBytes_mem scenario_engine spec_view (Some ''{"h":"1f"}'') [''h'']
                init_world)))
           (ParserView 0 vw) = [])\<close>
  by code_simp

section \<open>C1: an accessor returns the coerced value, whatever the pool holds\<close>

text \<open>
  Claim C1. Let \<open>d\<close> be a well-formed document (every parser parses it to the value
  \<open>v\<close>), called on in a state reached by any calls \<open>cs\<close> from any state \<open>w\<close>
  whose idle addresses are parser objects: whatever the pool holds and whatever was
  called before.

  \<^item> Each accessor returns exactly what the engine's coercion gives for \<open>v\<close> at the
    path: GetString the bytes of \<^verbatim>\<open>GetStringBytes\<close> as a string (the empty string
    for nil), GetBytes a non-nil slice with those bytes (nil when there is no byte),
    GetInt, GetHex, GetFloat64, GetBool and Exists the value of the engine's method,
    GetBigint the pointer and the big.Int heap of \<^verbatim>\<open>Value.GetBigint\<close>.
  \<^item> With the memory of the slices, for a path that resolves to a string node with the
    bytes \<open>bs\<close>: what \<^verbatim>\<open>GetStringBytes\<close> returns is a view into the parser;
    GetString returns \<open>bs\<close>, read before the parser is released, and GetBytes returns
    a new array with \<open>bs\<close>, not the view. So after any later calls \<open>cs'\<close>, which may
    reuse the parser, the bytes read through the result of GetBytes are still \<open>bs\<close>
    (through the view they are not: \<open>parser_view_changes_on_reuse\<close>). Both functions
    leave the state GetString and GetBytes leave, and return what they return
    (\<open>mem_accessors_agree\<close>).
  \<^item> The results of GetInt, GetFloat64, GetBool and Exists are Go values of the types
    int, float64 and bool, and those of GetString and GetHex Go strings, which never
    change. The result of GetBigint is a pointer, and the big.Int it points to is made
    by \<^verbatim>\<open>Value.GetBigint\<close>, which is not in handy.go: with the engine of the spec
    ("for numeric/boolean results, independent copies are implicit"),
    for a path that resolves to a number node \<open>n\<close>, after any earlier calls \<open>cb\<close>,
    GetBigint returns the address of a new big.Int, and after any later calls \<open>ca\<close>
    that big.Int holds \<open>n\<close>.
\<close>

theorem accessor_returns_coerced_value_in_every_state:
  assumes "well_formed E d v" and "pool_ok w" and "string_node E V d ks bs"
    and "G (go_string d') = Inr doc" and "navigate doc ks' = Some (JNumber n)"
  shows "fst (GetString E d ks (exec_calls E cs w)) =
           (case Value_GetStringBytes E v ks of None \<Rightarrow> [] | Some b \<Rightarrow> b) \<and>
         fst (GetBytes E d ks (exec_calls E cs w)) =
           (case Value_GetStringBytes E v ks of
              None \<Rightarrow> None | Some b \<Rightarrow> if b = [] then None else Some b) \<and>
         fst (GetInt E d ks (exec_calls E cs w)) = Value_GetInt E v ks \<and>
         fst (GetHex E d ks (exec_calls E cs w)) = Value_GetHex E v ks \<and>
         fst (GetFloat64 E d ks (exec_calls E cs w)) = Value_GetFloat64 E v ks \<and>
         fst (GetBool E d ks (exec_calls E cs w)) = Value_GetBool E v ks \<and>
         fst (Exists E d ks (exec_calls E cs w)) = Value_Exists E v ks \<and>
         (fst (GetBigint E d ks (exec_calls E cs w)),
          bigs (snd (GetBigint E d ks (exec_calls E cs w)))) =
            Value_GetBigint E v ks (bigs (exec_calls E cs w)) \<and>
         fst (GetString_mem E V d ks (exec_calls E cs w)) = bs \<and>
         snd (GetString_mem E V d ks (exec_calls E cs w)) =
           snd (GetString E d ks (exec_calls E cs w)) \<and>
         fst (GetBytes_mem E V d ks (exec_calls E cs w)) =
           (if bs = [] then NilSlice else NewArray bs) \<and>
         snd (GetBytes_mem E V d ks (exec_calls E cs w)) =
           snd (GetBytes E d ks (exec_calls E cs w)) \<and>
         read_slice (exec_calls E cs' (snd (GetBytes_mem E V d ks (exec_calls E cs w))))
           (fst (GetBytes_mem E V d ks (exec_calls E cs w))) = bs \<and>
         fst (GetBigint (spec_engine G fl hx) d' ks' (exec_calls (spec_engine G fl hx) cb w')) =
           Some (length (bigs (exec_calls (spec_engine G fl hx) cb w'))) \<and>
         bigs (exec_calls (spec_engine G fl hx) ca
                 (snd (GetBigint (spec_engine G fl hx) d' ks'
                        (exec_calls (spec_engine G fl hx) cb w'))))
           ! length (bigs (exec_calls (spec_engine G fl hx) cb w')) = n"
proof -
  let ?w = "exec_calls E cs w"
  let ?S = "spec_engine G fl hx"
  let ?u = "exec_calls ?S cb w'"
  have ok: "pool_ok ?w"
    using assms(2) by (rule pool_ok_exec_calls)
  have big: "bigs (snd (GetBigint ?S d' ks' ?u)) = bigs ?u @ [n]"
    using assms(4,5) by (rule spec_engine_GetBigint_number)
  have "bigs (exec_calls ?S ca (snd (GetBigint ?S d' ks' ?u))) ! length (bigs ?u) =
        bigs (snd (GetBigint ?S d' ks' ?u)) ! length (bigs ?u)"
    by (rule big_Int_kept) (simp add: big)
  then have kept: "bigs (exec_calls ?S ca (snd (GetBigint ?S d' ks' ?u))) ! length (bigs ?u) = n"
    by (simp add: big)
  have bytes: "fst (GetBytes E d ks ?w) =
      (case Value_GetStringBytes E v ks of
         None \<Rightarrow> None | Some b \<Rightarrow> if b = [] then None else Some b)"
    by (simp add: accessors_well_formed(2) [OF assms(1)] go_append_nil go_elems_def
        split: option.split)
  have str: "fst (GetString E d ks ?w) =
      (case Value_GetStringBytes E v ks of None \<Rightarrow> [] | Some b \<Rightarrow> b)"
    by (simp add: accessors_well_formed(1) [OF assms(1)] go_string_def go_elems_def)
  show ?thesis
    using kept bytes str
    by (simp add: accessors_well_formed(3-7) [OF assms(1)] GetFloat64_well_formed [OF assms(1)]
        mem_accessors_string_node [OF ok assms(3)] snd_mem_accessors read_own_slice
        spec_engine_GetBigint(1))
qed

text \<open>
  Witness: the string field of the hexadecimal example after another call, with a later
  call that reuses the parser; the number of the first example scenario as a big.Int,
  between two other calls of GetBigint.
\<close>

theorem accessor_returns_coerced_value_witness:
  \<open>well_formed scenario_engine (Some ''{"h":"1f"}'') (JObject [(''h'', JString ''1f'')]) \<and>
    pool_ok (init_world :: parser_state world) \<and>
    string_node scenario_engine spec_view (Some ''{"h":"1f"}'') [''h''] ''1f'' \<and>
    scenario_grammar (go_string (Some ''{"a":{"b":42}}'')) =
      Inr (JObject [(''a'', JObject [(''b'', JNumber 42)])]) \<and>
    navigate (JObject [(''a'', JObject [(''b'', JNumber 42)])]) [''a'', ''b''] =
      Some (JNumber 42) \<and>
    fst (GetString scenario_engine (Some ''{"h":"1f"}'') [''h'']
          (exec_calls scenario_engine
             [CallGetInt (Some ''{"arr":[10,20,30]}'') [''arr'', ''1'']] init_world)) = ''1f'' \<and>
    fst (GetBytes scenario_engine (Some ''{"h":"1f"}'') [''h'']
          (exec_calls scenario_engine
             [CallGetInt (Some ''{"arr":[10,20,30]}'') [''arr'', ''1'']] init_world)) =
      Some ''1f'' \<and>
    fst (GetHex scenario_engine (Some ''{"h":"1f"}'') [''h'']
          (exec_calls scenario_engine
             [CallGetInt (Some ''{"arr":[10,20,30]}'') [''arr'', ''1'']] init_world)) = ''1f'' \<and>
    fst (GetBytes_mem scenario_engine spec_view (Some ''{"h":"1f"}'') [''h'']
          (exec_calls scenario_engine
             [CallGetInt (Some ''{"arr":[10,20,30]}'') [''arr'', ''1'']] init_world)) =
      NewArray ''1f'' \<and>
    read_slice
      (exec_calls scenario_engine [CallGetInt (Some ''{"a":1}'') [''a'']]
         (snd (GetBytes_mem scenario_engine spec_view (Some ''{"h":"1f"}'') [''h'']
                (exec_calls scenario_engine
                   [CallGetInt (Some ''{"arr":[10,20,30]}'') [''arr'', ''1'']] init_world))))
      (fst (GetBytes_mem scenario_engine spec_view (Some ''{"h":"1f"}'') [''h'']
              (exec_calls scenario_engine
                 [CallGetInt (Some ''{"arr":[10,20,30]}'') [''arr'', ''1'']] init_world))) =
      ''1f'' \<and>
    fst (GetBigint scenario_engine (Some ''{"a":{"b":42}}'') [''a'', ''b'']
          (exec_calls scenario_engine [CallGetBigint (Some ''not json'') []] init_world)) =
      Some 1 \<and>
    bigs (exec_calls scenario_engine [CallGetBigint (Some ''{"a":1}'') [''a'']]
            (snd (GetBigint scenario_engine (Some ''{"a":{"b":42}}'') [''a'', ''b'']
                   (exec_calls scenario_engine [CallGetBigint (Some ''not json'') []]
                      init_world)))) ! 1 = 42\<close>
proof -
  have l: "length (bigs (exec_calls scenario_engine [CallGetBigint (Some ''not json'') []]
             (init_world :: parser_state world))) = 1"
    using spec_engine_GetBigint(2) [of scenario_grammar real_of_int
        "\<lambda>n. case n of JString s \<Rightarrow> s | _ \<Rightarrow> []" "Some ''not json''" "[]" init_world,
        folded scenario_engine_def]
    by (auto simp: init_world_def)
  have sb: "Value_GetStringBytes scenario_engine (JObject [(''h'', JString ''1f'')]) [''h''] =
      Some ''1f''"
    by (rule scenario_h(2))
  show ?thesis
    using scenario_h(1) pool_ok_init [where ?'a = parser_state] scenario_string_node scenario_b42
      accessor_returns_coerced_value_in_every_state
        [OF scenario_h(1) pool_ok_init scenario_string_node,
         where G = scenario_grammar and fl = real_of_int
           and hx = "\<lambda>n. case n of JString s \<Rightarrow> s | _ \<Rightarrow> []"
           and cs = \<open>[CallGetInt (Some ''{"arr":[10,20,30]}'') [''arr'', ''1'']]\<close>
           and cs' = \<open>[CallGetInt (Some ''{"a":1}'') [''a'']]\<close>
           and cb = "[CallGetBigint (Some ''not json'') []]"
           and ca = \<open>[CallGetBigint (Some ''{"a":1}'') [''a'']]\<close>
           and w' = init_world,
         OF scenario_b42, folded scenario_engine_def]
    by (simp only: l sb scenario_h(3) read_NewArray option.case list.simps if_False simp_thms)
qed

section \<open>C2: every accessor releases the parser it acquired, once, on every path\<close>

text \<open>
  Claim C2. Every accessor (GetString, GetBytes, GetInt, GetHex, GetBigint, GetFloat64,
  GetBool, Exists), on every input and from every state, so on the parse-failure path
  and on the success path alike, adds exactly three events: it acquires a parser from
  the pool, runs the parse on it, and releases that same parser, once. When it returns
  the parser is back in the idle set, in the place of the idle parser it took (if any).
\<close>

theorem accessors_release_acquired_parser_once:
  "events (snd (GetString E d ks w)) =
     events w @ [PoolGet (acquired w), ParserRun (acquired w), PoolPut (acquired w)] \<and>
   idle (snd (GetString E d ks w)) = acquired w # drop 1 (idle w) \<and>
   events (snd (GetBytes E d ks w)) =
     events w @ [PoolGet (acquired w), ParserRun (acquired w), PoolPut (acquired w)] \<and>
   idle (snd (GetBytes E d ks w)) = acquired w # drop 1 (idle w) \<and>
   events (snd (GetInt E d ks w)) =
     events w @ [PoolGet (acquired w), ParserRun (acquired w), PoolPut (acquired w)] \<and>
   idle (snd (GetInt E d ks w)) = acquired w # drop 1 (idle w) \<and>
   events (snd (GetHex E d ks w)) =
     events w @ [PoolGet (acquired w), ParserRun (acquired w), PoolPut (acquired w)] \<and>
   idle (snd (GetHex E d ks w)) = acquired w # drop 1 (idle w) \<and>
   events (snd (GetBigint E d ks w)) =
     events w @ [PoolGet (acquired w), ParserRun (acquired w), PoolPut (acquired w)] \<and>
   idle (snd (GetBigint E d ks w)) = acquired w # drop 1 (idle w) \<and>
   events (snd (GetFloat64 E d ks w)) =
     events w @ [PoolGet (acquired w), ParserRun (acquired w), PoolPut (acquired w)] \<and>
   idle (snd (GetFloat64 E d ks w)) = acquired w # drop 1 (idle w) \<and>
   events (snd (GetBool E d ks w)) =
     events w @ [PoolGet (acquired w), ParserRun (acquired w), PoolPut (acquired w)] \<and>
   idle (snd (GetBool E d ks w)) = acquired w # drop 1 (idle w) \<and>
   events (snd (Exists E d ks w)) =
     events w @ [PoolGet (acquired w), ParserRun (acquired w), PoolPut (acquired w)] \<and>
   idle (snd (Exists E d ks w)) = acquired w # drop 1 (idle w)"
  unfolding events_accessors idle_accessors by simp

section \<open>C3: malformed input\<close>

text \<open>
  Claim C3. For a malformed input (every parser reports an error on it) and any path,
  from any state, each accessor returns its default and no error: the empty string for
  GetString and GetHex, nil for GetBytes, 0 for GetInt, a big.Int holding zero for
  GetBigint, 0.0 for GetFloat64, false for GetBool and Exists. Parse and ParseBytes
  return the parse error; MustParse and MustParseBytes panic with it.
\<close>

theorem malformed_input_gives_defaults:
  assumes "malformed E d" and "malformed_text E s"
  shows "fst (GetString E d ks w) = [] \<and>
         fst (GetHex E d ks w) = [] \<and>
         fst (GetBytes E d ks w) = None \<and>
         fst (GetInt E d ks w) = 0 \<and>
         fst (GetBigint E d ks w) = Some (length (bigs w)) \<and>
         bigs (snd (GetBigint E d ks w)) = bigs w @ [0] \<and>
         fst (GetFloat64 E d ks w) = 0 \<and>
         fst (GetBool E d ks w) = False \<and>
         fst (Exists E d ks w) = False \<and>
         (\<exists>err. fst (Parse E s w) = Inl err \<and> fst (MustParse E s w) = Inl (Panic err)) \<and>
         (\<exists>err. fst (ParseBytes E d w) = Inl err \<and>
                fst (MustParseBytes E d w) = Inl (Panic err))"
proof -
  obtain e1 where e1: "fst (Parse E s w) = Inl e1"
    using assms(2) by (auto simp: fst_Parse malformed_text_def isl_def)
  obtain e2 where e2: "fst (ParseBytes E d w) = Inl e2"
    using assms(1) by (auto simp: fst_ParseBytes malformed_def isl_def)
  have "fst (MustParse E s w) = Inl (Panic e1)"
    by (simp add: MustParse_cases e1)
  moreover have "fst (MustParseBytes E d w) = Inl (Panic e2)"
    by (simp add: MustParseBytes_cases e2)
  ultimately show ?thesis
    using e1 e2
    by (simp add: accessors_malformed [OF assms(1)] GetFloat64_malformed [OF assms(1)])
qed

text \<open>
  Witness: the input \<^verbatim>\<open>not json\<close> of the example scenarios.
\<close>

theorem malformed_input_gives_defaults_witness:
  "malformed scenario_engine (Some ''not json'') \<and>
   malformed_text scenario_engine ''not json'' \<and>
   fst (GetString scenario_engine (Some ''not json'') [''a''] init_world) = [] \<and>
   fst (GetBytes scenario_engine (Some ''not json'') [''a''] init_world) = None \<and>
   fst (GetInt scenario_engine (Some ''not json'') [''a''] init_world) = 0 \<and>
   fst (GetBigint scenario_engine (Some ''not json'') [''a''] init_world) = Some 0 \<and>
   bigs (snd (GetBigint scenario_engine (Some ''not json'') [''a''] init_world)) = [0] \<and>
   fst (GetFloat64 scenario_engine (Some ''not json'') [''a''] init_world) = 0 \<and>
   fst (Exists scenario_engine (Some ''not json'') [''a''] init_world) = False \<and>
   fst (Parse scenario_engine ''not json'' init_world) = Inl ''cannot parse'' \<and>
   fst (MustParse scenario_engine ''not json'' init_world) = Inl (Panic ''cannot parse'')"
  using scenario_not_json
    malformed_input_gives_defaults [OF scenario_not_json, where ks = "[''a'']" and w = init_world]
  by (auto simp: scenario_Parse_not_json init_world_def)

section \<open>C4: what nil from GetBytes tells\<close>

text \<open>
  Claim C4 says that the nil GetBytes returns on failure is distinct from what it
  returns for a present but empty string value. It is not: the copy is made by
  \<^verbatim>\<open>append(b, sb...)\<close> onto the nil slice \<open>b\<close>, which stays nil when \<open>sb\<close> has no
  element. For the document with the empty string field \<open>a\<close>, where the engine finds
  the field and hands out the non-nil empty slice, GetBytes returns nil, as it does for
  the malformed input.
\<close>

theorem GetBytes_nil_marker_counterexample:
  \<open>well_formed scenario_engine (Some ''{"a":""}'') (JObject [(''a'', JString [])]) \<and>
    Value_Exists scenario_engine (JObject [(''a'', JString [])]) [''a''] \<and>
    Value_GetStringBytes scenario_engine (JObject [(''a'', JString [])]) [''a''] = Some [] \<and>
    malformed scenario_engine (Some ''not json'') \<and>
    fst (GetBytes scenario_engine (Some ''{"a":""}'') [''a''] init_world) = None \<and>
    fst (GetBytes scenario_engine (Some ''not json'') [''a''] init_world) = None\<close>
proof -
  have wf: \<open>well_formed scenario_engine (Some ''{"a":""}'') (JObject [(''a'', JString [])])\<close>
    by (simp add: scenario_engine_def well_formed_spec_engine go_string_Some scenario_documents)
  have sb: "Value_GetStringBytes scenario_engine (JObject [(''a'', JString [])]) [''a''] = Some []"
    and ex: "Value_Exists scenario_engine (JObject [(''a'', JString [])]) [''a'']"
    by (simp_all add: scenario_engine_def spec_engine_methods child_def)
  show ?thesis
    using wf sb ex scenario_not_json(1)
    by (simp add: accessors_well_formed(2) [OF wf] accessors_malformed(2) [OF scenario_not_json(1)]
        go_append_nil go_elems_def)
qed

text \<open>
  Claim C4, amended. GetBytes returns nil on a malformed input, and on a well-formed one
  exactly when the engine's \<^verbatim>\<open>GetStringBytes\<close> yields no byte (nil, or a present
  value that is empty); otherwise it returns a non-nil slice holding a copy of the bytes.
  So nil is distinct from every present non-empty value, and from those only.
\<close>

theorem GetBytes_nil_exactly_without_bytes:
  "(malformed E d \<longrightarrow> fst (GetBytes E d ks w) = None) \<and>
   (well_formed E d v \<longrightarrow>
      fst (GetBytes E d ks w) =
        (if go_elems (Value_GetStringBytes E v ks) = [] then None
         else Some (go_elems (Value_GetStringBytes E v ks))))"
  by (simp add: accessors_well_formed(2) accessors_malformed(2) go_append_nil)

text \<open>
  Witness: the malformed input, and a document with a non-empty string field.
\<close>

theorem GetBytes_nil_exactly_without_bytes_witness:
  \<open>malformed scenario_engine (Some ''not json'') \<and>
    fst (GetBytes scenario_engine (Some ''not json'') [''h''] init_world) = None \<and>
    well_formed scenario_engine (Some ''{"h":"1f"}'') (JObject [(''h'', JString ''1f'')]) \<and>
    fst (GetBytes scenario_engine (Some ''{"h":"1f"}'') [''h''] init_world) = Some ''1f''\<close>
  using scenario_not_json(1) scenario_h(1)
    GetBytes_nil_exactly_without_bytes [where E = scenario_engine and d = "Some ''not json''"
      and ks = "[''h'']" and w = init_world]
    GetBytes_nil_exactly_without_bytes [where E = scenario_engine and d = \<open>Some ''{"h":"1f"}''\<close>
      and ks = "[''h'']" and w = init_world and v = "JObject [(''h'', JString ''1f'')]"]
  by (simp add: scenario_h(2) go_elems_def)

section \<open>C5: GetBytes and GetString agree\<close>

text \<open>
  Claim C5. For a well-formed document and any path (so for a path to a string field),
  the bytes GetBytes returns, converted to a string, are the string GetString returns,
  in whatever states the two calls are made, in particular when GetString is called
  right after GetBytes.
\<close>

theorem GetBytes_as_string_is_GetString:
  assumes "well_formed E d v"
  shows "go_string (fst (GetBytes E d ks w)) = fst (GetString E d ks w') \<and>
         go_string (fst (GetBytes E d ks w)) = fst (GetString E d ks (snd (GetBytes E d ks w)))"
  by (simp add: accessors_well_formed [OF assms] go_string_go_append_nil)

text \<open>
  Witness: the string field of the hexadecimal example.
\<close>

theorem GetBytes_as_string_is_GetString_witness:
  \<open>well_formed scenario_engine (Some ''{"h":"1f"}'') (JObject [(''h'', JString ''1f'')]) \<and>
    go_string (fst (GetBytes scenario_engine (Some ''{"h":"1f"}'') [''h''] init_world)) = ''1f'' \<and>
    fst (GetString scenario_engine (Some ''{"h":"1f"}'') [''h''] init_world) = ''1f''\<close>
  using scenario_h(1)
    GetBytes_as_string_is_GetString [OF scenario_h(1), where ks = "[''h'']" and w = init_world
       and w' = init_world]
  by (simp add: accessors_well_formed(1) [OF scenario_h(1)] scenario_h(2) go_string_Some)

section \<open>C6: MustParse and MustParseBytes\<close>

text \<open>
  Claim C6. When Parse (ParseBytes) succeeds, MustParse (MustParseBytes) returns the
  same document and leaves the same state; when it fails with error \<open>err\<close>, the Must
  variant does not return: it panics, and the panic carries that same \<open>err\<close>.
\<close>

theorem Must_variants_follow_Parse:
  "(fst (Parse E s w) = Inr v \<longrightarrow> MustParse E s w = (Inr v, snd (Parse E s w))) \<and>
   (fst (Parse E s w) = Inl err \<longrightarrow> MustParse E s w = (Inl (Panic err), snd (Parse E s w))) \<and>
   (fst (ParseBytes E b w) = Inr v' \<longrightarrow> MustParseBytes E b w = (Inr v', snd (ParseBytes E b w))) \<and>
   (fst (ParseBytes E b w) = Inl err' \<longrightarrow>
      MustParseBytes E b w = (Inl (Panic err'), snd (ParseBytes E b w)))"
  by (simp add: MustParse_cases MustParseBytes_cases)

text \<open>
  Witness: a document that parses and an input that does not.
\<close>

theorem Must_variants_follow_Parse_witness:
  \<open>fst (Parse scenario_engine ''{"a":1}'' init_world) = Inr (JObject [(''a'', JNumber 1)]) \<and>
    fst (MustParse scenario_engine ''{"a":1}'' init_world) = Inr (JObject [(''a'', JNumber 1)]) \<and>
    fst (Parse scenario_engine ''not json'' init_world) = Inl ''cannot parse'' \<and>
    fst (MustParse scenario_engine ''not json'' init_world) = Inl (Panic ''cannot parse'') \<and>
    fst (ParseBytes scenario_engine (Some ''{"a":1}'') init_world) =
      Inr (JObject [(''a'', JNumber 1)]) \<and>
    fst (MustParseBytes scenario_engine (Some ''{"a":1}'') init_world) =
      Inr (JObject [(''a'', JNumber 1)]) \<and>
    fst (ParseBytes scenario_engine (Some ''not json'') init_world) = Inl ''cannot parse'' \<and>
    fst (MustParseBytes scenario_engine (Some ''not json'') init_world) =
      Inl (Panic ''cannot parse'')\<close>
  using
    Must_variants_follow_Parse [where E = scenario_engine and s = \<open>''{"a":1}''\<close>
      and b = \<open>Some ''{"a":1}''\<close> and w = init_world
      and v = "JObject [(''a'', JNumber 1)]" and v' = "JObject [(''a'', JNumber 1)]"]
    Must_variants_follow_Parse [where E = scenario_engine and s = "''not json''"
      and b = "Some ''not json''" and w = init_world
      and err = "''cannot parse''" and err' = "''cannot parse''"]
  by (simp add: scenario_Parse_a1 scenario_Parse_not_json)

section \<open>C7: a path that resolves to no node\<close>

text \<open>
  Claim C7, for the engine of the spec. For a well-formed document and a path that
  resolves to no node (a missing key, an index out of range, a step through a node that
  is neither object nor array), every value accessor returns its default and Exists
  returns false.
\<close>

theorem unresolved_path_gives_defaults:
  assumes "G (go_string d) = Inr doc" and "navigate doc ks = None"
  shows "fst (GetString (spec_engine G fl hx) d ks w) = [] \<and>
         fst (GetBytes (spec_engine G fl hx) d ks w) = None \<and>
         fst (GetInt (spec_engine G fl hx) d ks w) = 0 \<and>
         fst (GetHex (spec_engine G fl hx) d ks w) = [] \<and>
         fst (GetBigint (spec_engine G fl hx) d ks w) = Some (length (bigs w)) \<and>
         bigs (snd (GetBigint (spec_engine G fl hx) d ks w)) = bigs w @ [0] \<and>
         fst (GetFloat64 (spec_engine G fl hx) d ks w) = 0 \<and>
         fst (GetBool (spec_engine G fl hx) d ks w) = False \<and>
         fst (Exists (spec_engine G fl hx) d ks w) = False"
proof -
  have wf: "well_formed (spec_engine G fl hx) d doc"
    using assms(1) by (simp add: well_formed_spec_engine)
  have big: "fst (GetBigint (spec_engine G fl hx) d ks w) = Some (length (bigs w))"
        "bigs (snd (GetBigint (spec_engine G fl hx) d ks w)) = bigs w @ [0]"
    using accessors_well_formed(5) [OF wf, of ks w]
    by (simp_all add: spec_engine_methods assms(2) prod_eq_iff)
  show ?thesis
    using big
    by (simp add: accessors_well_formed [OF wf] GetFloat64_well_formed [OF wf]
        spec_engine_methods assms(2) go_string_def go_append_def go_elems_def)
qed

text \<open>
  Witness: a step through a number, a missing key and an index out of range.
\<close>

theorem unresolved_path_gives_defaults_witness:
  \<open>scenario_grammar (go_string (Some ''{"a":1}'')) = Inr (JObject [(''a'', JNumber 1)]) \<and>
    navigate (JObject [(''a'', JNumber 1)]) [''a'', ''x''] = None \<and>
    fst (GetInt scenario_engine (Some ''{"a":1}'') [''a'', ''x''] init_world) = 0 \<and>
    fst (Exists scenario_engine (Some ''{"a":1}'') [''a'', ''x''] init_world) = False \<and>
    navigate (JObject [(''a'', JNumber 1)]) [''b''] = None \<and>
    fst (GetString scenario_engine (Some ''{"a":1}'') [''b''] init_world) = [] \<and>
    scenario_grammar (go_string (Some ''{"arr":[10,20,30]}'')) =
      Inr (JObject [(''arr'', JArray [JNumber 10, JNumber 20, JNumber 30])]) \<and>
    navigate (JObject [(''arr'', JArray [JNumber 10, JNumber 20, JNumber 30])]) [''arr'', ''3'']
      = None \<and>
    fst (GetInt scenario_engine (Some ''{"arr":[10,20,30]}'') [''arr'', ''3''] init_world) = 0 \<and>
    fst (Exists scenario_engine (Some ''{"arr":[10,20,30]}'') [''arr'', ''3''] init_world) = False\<close>
proof -
  have g1: \<open>scenario_grammar (go_string (Some ''{"a":1}'')) = Inr (JObject [(''a'', JNumber 1)])\<close>
    and g2: \<open>scenario_grammar (go_string (Some ''{"arr":[10,20,30]}'')) =
      Inr (JObject [(''arr'', JArray [JNumber 10, JNumber 20, JNumber 30])])\<close>
    by (simp_all add: go_string_Some scenario_documents)
  show ?thesis
    using g1 g2 scenario_navigate(1,2,3)
      unresolved_path_gives_defaults [where G = scenario_grammar and w = init_world
        and fl = real_of_int and hx = "\<lambda>n. case n of JString s \<Rightarrow> s | _ \<Rightarrow> []",
        OF g1 scenario_navigate(1), folded scenario_engine_def]
      unresolved_path_gives_defaults [where G = scenario_grammar and w = init_world
        and fl = real_of_int and hx = "\<lambda>n. case n of JString s \<Rightarrow> s | _ \<Rightarrow> []",
        OF g1 scenario_navigate(2), folded scenario_engine_def]
      unresolved_path_gives_defaults [where G = scenario_grammar and w = init_world
        and fl = real_of_int and hx = "\<lambda>n. case n of JString s \<Rightarrow> s | _ \<Rightarrow> []",
        OF g2 scenario_navigate(3), folded scenario_engine_def]
    by simp
qed

section \<open>C8: digit segments\<close>

text \<open>
  Claim C8, for the engine of the spec. Against an array node a segment of decimal
  digits is the index of the element it selects (none when out of range), and any
  other segment selects nothing; against an object node every segment, digits or not,
  is looked up as a key. For the input \<^verbatim>\<open>{"arr":[10,20,30]}\<close>, parsed to the object
  with the array \<open>[10, 20, 30]\<close> under \<^verbatim>\<open>arr\<close>, and the path \<^verbatim>\<open>arr\<close>, \<^verbatim>\<open>1\<close>,
  GetInt returns 20.
\<close>

theorem digit_segments_index_arrays:
  \<open>(is_index k \<longrightarrow>
      child (JArray xs) k = (if decimal k < length xs then Some (xs ! decimal k) else None)) \<and>
    (\<not> is_index k \<longrightarrow> child (JArray xs) k = None) \<and>
    child (JObject kvs) k = map_of kvs k \<and>
    (G ''{"arr":[10,20,30]}'' =
        Inr (JObject [(''arr'', JArray [JNumber 10, JNumber 20, JNumber 30])]) \<longrightarrow>
      fst (GetInt (spec_engine G fl hx) (Some ''{"arr":[10,20,30]}'') [''arr'', ''1''] w) = 20)\<close>
proof -
  have \<open>fst (GetInt (spec_engine G fl hx) (Some ''{"arr":[10,20,30]}'') [''arr'', ''1''] w) = 20\<close>
    if g: \<open>G ''{"arr":[10,20,30]}'' =
        Inr (JObject [(''arr'', JArray [JNumber 10, JNumber 20, JNumber 30])])\<close>
  proof -
    have wf: \<open>well_formed (spec_engine G fl hx) (Some ''{"arr":[10,20,30]}'')
        (JObject [(''arr'', JArray [JNumber 10, JNumber 20, JNumber 30])])\<close>
      using g by (simp add: well_formed_spec_engine go_string_Some)
    have "Value_GetInt (spec_engine G fl hx)
            (JObject [(''arr'', JArray [JNumber 10, JNumber 20, JNumber 30])]) [''arr'', ''1''] = 20"
      by (simp only: spec_engine_methods scenario_navigate(4) option.case json.case)
    then show ?thesis
      by (simp only: accessors_well_formed(3) [OF wf])
  qed
  then show ?thesis
    by (simp add: child_def)
qed

text \<open>
  Witness: the array of the example, a key of digits in an object, and the example itself.
\<close>

theorem digit_segments_index_arrays_witness:
  \<open>is_index ''1'' \<and> decimal ''1'' = 1 \<and>
    child (JArray [JNumber 10, JNumber 20, JNumber 30]) ''1'' = Some (JNumber 20) \<and>
    \<not> is_index ''x'' \<and>
    child (JArray [JNumber 10, JNumber 20, JNumber 30]) ''x'' = None \<and>
    child (JObject [(''1'', JNumber 7)]) ''1'' = Some (JNumber 7) \<and>
    scenario_grammar ''{"arr":[10,20,30]}'' =
      Inr (JObject [(''arr'', JArray [JNumber 10, JNumber 20, JNumber 30])]) \<and>
    fst (GetInt scenario_engine (Some ''{"arr":[10,20,30]}'') [''arr'', ''1''] init_world) = 20\<close>
proof -
  have i: "is_index ''1''" "decimal ''1'' = 1" "\<not> is_index ''x''"
    by (simp_all add: is_index_def is_digit_def decimal_def)
  show ?thesis
    using i scenario_documents(2)
      digit_segments_index_arrays [where k = "''1''" and G = scenario_grammar
        and xs = "[JNumber 10, JNumber 20, JNumber 30]" and kvs = "[(''1'', JNumber 7)]"
        and w = init_world and fl = real_of_int
        and hx = "\<lambda>n. case n of JString s \<Rightarrow> s | _ \<Rightarrow> []", folded scenario_engine_def]
      digit_segments_index_arrays [where k = "''x''" and G = scenario_grammar
        and xs = "[JNumber 10, JNumber 20, JNumber 30]" and kvs = "[]"
        and w = init_world and fl = real_of_int
        and hx = "\<lambda>n. case n of JString s \<Rightarrow> s | _ \<Rightarrow> []", folded scenario_engine_def]
    by simp
qed

section \<open>C9: Parse and ParseBytes use a parser of their own\<close>

text \<open>
  Claim C9. In a state where every idle address is a parser object, Parse and
  ParseBytes allocate a new parser object (the parser heap grows by it, the objects
  that existed are unchanged), run the parse on it, and leave the pool alone: the idle
  set is the same and the only event is that parse. The new parser is never handed to
  the pool, so after any sequence \<open>cs\<close> of later calls of Parse, ParseBytes, their
  Must variants and the accessors it is untouched: not acquired, not run again, not
  released, its state unchanged. A document is invalidated only by a new parse on the
  parser that produced it, so the document these functions return stays valid.
\<close>

theorem Parse_uses_private_parser:
  assumes "pool_ok w"
  shows "parsers (snd (Parse E s w)) = parsers w @ [snd (Parser_Parse E (zero_Parser E) s)] \<and>
         idle (snd (Parse E s w)) = idle w \<and>
         events (snd (Parse E s w)) = events w @ [ParserRun (length (parsers w))] \<and>
         untouched (length (parsers w)) (snd (Parse E s w))
           (exec_calls E cs (snd (Parse E s w))) \<and>
         parsers (snd (ParseBytes E b w)) =
           parsers w @ [snd (Parser_ParseBytes E (zero_Parser E) b)] \<and>
         idle (snd (ParseBytes E b w)) = idle w \<and>
         events (snd (ParseBytes E b w)) = events w @ [ParserRun (length (parsers w))] \<and>
         untouched (length (parsers w)) (snd (ParseBytes E b w))
           (exec_calls E cs (snd (ParseBytes E b w)))"
proof -
  have fresh: "length (parsers w) \<notin> set (idle w)"
    using assms by (auto simp: pool_ok_def list_all_iff)
  have "pool_ok (snd (Parse E s w))" "pool_ok (snd (ParseBytes E b w))"
    using assms by (auto simp: pool_ok_def list_all_iff snd_Parse snd_ParseBytes)
  then have "untouched (length (parsers w)) (snd (Parse E s w))
           (exec_calls E cs (snd (Parse E s w)))"
    "untouched (length (parsers w)) (snd (ParseBytes E b w))
           (exec_calls E cs (snd (ParseBytes E b w)))"
    using fresh by (simp_all add: untouched_exec_calls snd_Parse snd_ParseBytes)
  then show ?thesis
    by (simp add: snd_Parse snd_ParseBytes)
qed

text \<open>
  Witness: Parse in the initial state, followed by three calls; the events show
  that the later calls use the parsers at addresses 1 and 2, never the one at 0.
\<close>

theorem Parse_uses_private_parser_witness:
  \<open>pool_ok (init_world :: parser_state world) \<and>
    idle (snd (Parse scenario_engine ''{"a":1}'' init_world)) = [] \<and>
    events (snd (Parse scenario_engine ''{"a":1}'' init_world)) = [ParserRun 0] \<and>
    untouched 0 (snd (Parse scenario_engine ''{"a":1}'' init_world))
      (exec_calls scenario_engine
         [CallGetInt (Some ''{"arr":[10,20,30]}'') [''arr'', ''1''], CallParse ''not json'',
          CallGetString (Some ''{"h":"1f"}'') [''h'']]
         (snd (Parse scenario_engine ''{"a":1}'' init_world))) \<and>
    events (exec_calls scenario_engine
         [CallGetInt (Some ''{"arr":[10,20,30]}'') [''arr'', ''1''], CallParse ''not json'',
          CallGetString (Some ''{"h":"1f"}'') [''h'']]
         (snd (Parse scenario_engine ''{"a":1}'' init_world))) =
      [ParserRun 0, PoolGet 1, ParserRun 1, PoolPut 1, ParserRun 2,
       PoolGet 1, ParserRun 1, PoolPut 1]\<close>
proof -
  have ev: \<open>events (exec_calls scenario_engine
         [CallGetInt (Some ''{"arr":[10,20,30]}'') [''arr'', ''1''], CallParse ''not json'',
          CallGetString (Some ''{"h":"1f"}'') [''h'']]
         (snd (Parse scenario_engine ''{"a":1}'' (init_world :: parser_state world)))) =
      [ParserRun 0, PoolGet 1, ParserRun 1, PoolPut 1, ParserRun 2,
       PoolGet 1, ParserRun 1, PoolPut 1]\<close>
    by (simp add: events_GetInt events_GetString snd_Parse idle_GetInt parsers_GetInt
        acquired_def parsers_after_def init_world_def)
  have l: "length (parsers (init_world :: parser_state world)) = 0"
    and i0: "idle (init_world :: parser_state world) = []"
    and e0: "events (init_world :: parser_state world) = []"
    by (simp_all add: init_world_def)
  show ?thesis
    using pool_ok_init [where ?'a = parser_state] ev
      Parse_uses_private_parser [OF pool_ok_init, where E = scenario_engine
        and s = \<open>''{"a":1}''\<close>
        and cs = \<open>[CallGetInt (Some ''{"arr":[10,20,30]}'') [''arr'', ''1''],
          CallParse ''not json'', CallGetString (Some ''{"h":"1f"}'') [''h'']]\<close>
        and b = "Some ''not json''"]
    by (simp only: l i0 e0 append_Nil simp_thms)
qed

section \<open>C10: GetBigint and nil\<close>

text \<open>
  Claim C10. When the parse fails, GetBigint returns the address of a new big.Int: an
  address the heap did not hold before the call, holding zero, and the big.Ints that
  existed are unchanged. When the parse succeeds it returns the pointer
  \<^verbatim>\<open>Value.GetBigint\<close> returns, whose code is not in handy.go. With the engine of
  the spec, whose \<^verbatim>\<open>GetBigint\<close> yields a big integer for every node and zero where
  there is none, GetBigint returns a non-nil pointer for every input, every path and
  every state, and the address it returns is one of the heap it leaves, so the caller
  can dereference it.
\<close>

theorem GetBigint_not_nil:
  "(accessor_parse E d w = Inl err \<longrightarrow>
      fst (GetBigint E d ks w) = Some (length (bigs w)) \<and>
      bigs (snd (GetBigint E d ks w)) = bigs w @ [0]) \<and>
   (accessor_parse E d w = Inr v \<longrightarrow>
      fst (GetBigint E d ks w) = fst (Value_GetBigint E v ks (bigs w))) \<and>
   fst (GetBigint (spec_engine G fl hx) d' ks' w') \<noteq> None \<and>
   fst (GetBigint (spec_engine G fl hx) d' ks' w') = Some (length (bigs w')) \<and>
   length (bigs w') < length (bigs (snd (GetBigint (spec_engine G fl hx) d' ks' w')))"
proof -
  obtain x where "bigs (snd (GetBigint (spec_engine G fl hx) d' ks' w')) = bigs w' @ [x]"
    using spec_engine_GetBigint(2) by blast
  then show ?thesis
    by (simp add: GetBigint_parse(1,2) [of E] spec_engine_GetBigint(1) split: sum.split)
qed

text \<open>
  Witness: a parse failure and a parse success, and a path that resolves to no node.
\<close>

theorem GetBigint_not_nil_witness:
  \<open>accessor_parse scenario_engine (Some ''not json'') init_world = Inl ''cannot parse'' \<and>
    fst (GetBigint scenario_engine (Some ''not json'') [''a''] init_world) = Some 0 \<and>
    bigs (snd (GetBigint scenario_engine (Some ''not json'') [''a''] init_world)) = [0] \<and>
    accessor_parse scenario_engine (Some ''{"a":1}'') init_world =
      Inr (JObject [(''a'', JNumber 1)]) \<and>
    fst (GetBigint scenario_engine (Some ''{"a":1}'') [''a''] init_world) = Some 0 \<and>
    fst (GetBigint scenario_engine (Some ''{"a":1}'') [''x''] init_world) \<noteq> None\<close>
proof -
  have p1: "accessor_parse scenario_engine (Some ''not json'') init_world = Inl ''cannot parse''"
    and p2: \<open>accessor_parse scenario_engine (Some ''{"a":1}'') init_world =
      Inr (JObject [(''a'', JNumber 1)])\<close>
    by (simp_all add: scenario_accessor_parse go_string_Some scenario_documents)
  have v: "fst (Value_GetBigint scenario_engine (JObject [(''a'', JNumber 1)]) [''a''] []) = Some 0"
    by (simp add: scenario_engine_def spec_engine_GetBigint_not_nil)
  show ?thesis
    using p1 p2
      GetBigint_not_nil [where E = scenario_engine and d = "Some ''not json''"
        and w = init_world and err = "''cannot parse''" and ks = "[''a'']"
        and G = scenario_grammar and fl = real_of_int
        and hx = "\<lambda>n. case n of JString s \<Rightarrow> s | _ \<Rightarrow> []"
        and d' = \<open>Some ''{"a":1}''\<close> and ks' = "[''x'']" and w' = init_world,
        folded scenario_engine_def]
      GetBigint_not_nil [where E = scenario_engine and d = \<open>Some ''{"a":1}''\<close>
        and w = init_world and v = "JObject [(''a'', JNumber 1)]" and ks = "[''a'']"
        and G = scenario_grammar and fl = real_of_int
        and hx = "\<lambda>n. case n of JString s \<Rightarrow> s | _ \<Rightarrow> []"
        and d' = \<open>Some ''{"a":1}''\<close> and ks' = "[''x'']" and w' = init_world,
        folded scenario_engine_def]
    by (simp add: v init_world_def)
qed

end
